theory Spec2Isabelle
  imports Main
begin

section \<open>Data model (src/types/agent.ts)\<close>

text \<open>
  A parameter value is \<^verbatim>\<open>string | number | boolean\<close> (the type of the values of
  \<^verbatim>\<open>ToolCall.parameters\<close>). The validator takes a \<^verbatim>\<open>Record<string, unknown>\<close> and reads
  it with \<^verbatim>\<open>parameters[paramName]\<close>, which for a name that the object does not own
  gives what its prototype has under that name: a function or an object. These are the
  two further values. The type \<open>'n\<close> stands for the ECMAScript numbers: the validator
  only compares them with the operators less-than and greater-than, so \<open>'n\<close> is any
  type of class \<open>ord\<close>, a class without axioms (the comparison need not be total, as
  with NaN). The conversion of a number to text inside a template literal is a
  primitive of the language; the functions that need it take it as the argument
  \<open>numText\<close>.
\<close>

datatype 'n jsvalue = VString string | VNumber 'n | VBoolean bool | VFunction | VObject

datatype jstype = TString | TNumber | TBoolean | TFunction | TObject

text \<open>\<^verbatim>\<open>typeof value\<close> on these values.\<close>

fun typeof :: "'n jsvalue \<Rightarrow> jstype" where
  "typeof (VString s) = TString"
| "typeof (VNumber x) = TNumber"
| "typeof (VBoolean b) = TBoolean"
| "typeof VFunction = TFunction"
| "typeof VObject = TObject"

text \<open>
  \<^verbatim>\<open>ToolParameter = StringParam | NumberParam | BooleanParam\<close>, a union discriminated by
  its \<^verbatim>\<open>type\<close> field. Optional fields are options.
\<close>

datatype 'n ToolParameter =
    StringParam (pdescription: string) (required: "bool option") (sdefault: "string option")
  | NumberParam (pdescription: string) (required: "bool option") (ndefault: "'n option")
      (pmin: "'n option") (pmax: "'n option")
  | BooleanParam (pdescription: string) (required: "bool option") (bdefault: "bool option")

text \<open>The discriminator \<^verbatim>\<open>paramSchema.type\<close>.\<close>

fun ptype :: "'n ToolParameter \<Rightarrow> jstype" where
  "ptype (StringParam d r df) = TString"
| "ptype (NumberParam d r df mn mx) = TNumber"
| "ptype (BooleanParam d r df) = TBoolean"

text \<open>
  \<^verbatim>\<open>ParameterSchema\<close> is a record from names to \<^verbatim>\<open>ToolParameter\<close>: here the list of its
  properties in the order in which the schema declares them, each name once. A
  parameter bag is the map of the properties that the object owns.
\<close>

type_synonym 'n ParameterSchema = "(string \<times> 'n ToolParameter) list"

type_synonym 'n ParameterBag = "string \<rightharpoonup> 'n jsvalue"

text \<open>
  The properties of \<^verbatim>\<open>Object.prototype\<close>, the prototype of an object literal and of a
  parsed JSON object: eleven functions, and the accessor \<^verbatim>\<open>__proto__\<close>, which gives the
  prototype itself, an object.
\<close>

definition objectPrototype :: "string \<Rightarrow> 'n jsvalue option" where
  "objectPrototype n =
     (if n \<in> set [''constructor'', ''hasOwnProperty'', ''isPrototypeOf'',
                   ''propertyIsEnumerable'', ''toLocaleString'', ''toString'', ''valueOf'',
                   ''__defineGetter__'', ''__defineSetter__'', ''__lookupGetter__'',
                   ''__lookupSetter__'']
      then Some VFunction
      else if n = ''__proto__'' then Some VObject
      else None)"

text \<open>
  \<^verbatim>\<open>parameters[paramName]\<close>: the property that the bag owns, else the one that the
  prototype has, else \<^verbatim>\<open>undefined\<close>, here \<open>None\<close>.
\<close>

definition readProperty :: "'n ParameterBag \<Rightarrow> string \<Rightarrow> 'n jsvalue option" where
  "readProperty params n = (case params n of Some v \<Rightarrow> Some v | None \<Rightarrow> objectPrototype n)"

text \<open>
  \<^verbatim>\<open>Object.entries\<close> lists the properties whose names are array indices first, in
  ascending order of the index, and then the other properties in the order of their
  creation. An array index is the decimal numeral, without a leading zero, of an
  integer below 4294967295.
\<close>

fun digitOf :: "char \<Rightarrow> nat option" where
  "digitOf c = map_of (zip ''0123456789'' [0, 1, 2, 3, 4, 5, 6, 7, 8, 9]) c"

fun indexValue :: "string \<Rightarrow> nat \<Rightarrow> nat option" where
  "indexValue [] acc = Some acc"
| "indexValue (c # cs) acc =
     (case digitOf c of None \<Rightarrow> None | Some d \<Rightarrow> indexValue cs (10 * acc + d))"

definition arrayIndex :: "string \<Rightarrow> nat option" where
  "arrayIndex n =
     (case n of
        [] \<Rightarrow> None
      | c # cs \<Rightarrow>
          if c = CHR ''0'' \<and> cs \<noteq> [] then None
          else (case indexValue n 0 of
                  None \<Rightarrow> None
                | Some i \<Rightarrow> if i < 4294967295 then Some i else None))"

definition objectEntries :: "(string \<times> 'a) list \<Rightarrow> (string \<times> 'a) list" where
  "objectEntries ps =
     sort_key (\<lambda>(n, p). case arrayIndex n of Some i \<Rightarrow> i | None \<Rightarrow> 0)
       (filter (\<lambda>(n, p). arrayIndex n \<noteq> None) ps) @
     filter (\<lambda>(n, p). arrayIndex n = None) ps"

text \<open>
  What one call of a tool body does: it returns (or resolves to) a text, throws (or
  rejects with) an \<^verbatim>\<open>Error\<close> that has a message, or throws some other value. A body
  whose promise never settles leaves \<^verbatim>\<open>run\<close> suspended for ever; that is an invocation
  that is never resumed, in the section on the suspension points.
\<close>

datatype exec_outcome = Returned string | ThrewError string | ThrewOther

record 'n Tool =
  name :: string
  description :: string
  parameters :: "'n ParameterSchema"
  execute :: "'n ParameterBag \<Rightarrow> exec_outcome"

type_synonym Date = int

record 'n Agent =
  agent_id :: string
  agent_name :: string
  prompt :: string
  tools :: "'n Tool list"
  createdAt :: Date
  updatedAt :: Date

datatype Role = User | Assistant | System | ToolRole

record Message =
  role :: Role
  content :: string
  timestamp :: Date
  toolName :: "string option"
  toolResult :: "string option"

record 'n ToolCall =
  tc_toolName :: string
  tc_parameters :: "'n ParameterBag"

record ToolResult =
  tr_toolName :: string
  success :: bool
  result :: "string option"
  error :: "string option"

section \<open>Parameter validation (src/engine/AgentExecutor.ts, validateParameters)\<close>

text \<open>The value \<^verbatim>\<open>{ valid: boolean; error?: string }\<close> that the validator returns.\<close>

record Validation =
  valid :: bool
  verror :: "string option"

text \<open>
  The body of the \<^verbatim>\<open>for\<close> loop for one entry of the schema and the value read for
  its name: \<open>Some reason\<close> where the
  body returns \<^verbatim>\<open>{ valid: false, error: reason }\<close>, \<open>None\<close> where it falls through to the
  next entry. The checks are in the order of the source: required, the three type
  checks, then the two bounds.
\<close>

fun checkParameter ::
  "('n::ord \<Rightarrow> string) \<Rightarrow> string \<Rightarrow> 'n ToolParameter \<Rightarrow> 'n jsvalue option \<Rightarrow> string option"
where
  "checkParameter numText paramName paramSchema None =
     (if required paramSchema = Some True
      then Some (''Missing required parameter: '' @ paramName)
      else None)"
| "checkParameter numText paramName paramSchema (Some v) =
     (if ptype paramSchema = TNumber \<and> typeof v \<noteq> TNumber
      then Some (''Parameter '' @ paramName @ '' must be a number'')
      else if ptype paramSchema = TString \<and> typeof v \<noteq> TString
      then Some (''Parameter '' @ paramName @ '' must be a string'')
      else if ptype paramSchema = TBoolean \<and> typeof v \<noteq> TBoolean
      then Some (''Parameter '' @ paramName @ '' must be a boolean'')
      else (case (paramSchema, v) of
              (NumberParam d r df mn mx, VNumber x) \<Rightarrow>
                (case mn of
                   Some lo \<Rightarrow>
                     if x < lo
                     then Some (''Parameter '' @ paramName @ '' must be >= '' @ numText lo)
                     else (case mx of
                             Some hi \<Rightarrow>
                               if hi < x
                               then Some (''Parameter '' @ paramName @ '' must be <= '' @ numText hi)
                               else None
                           | None \<Rightarrow> None)
                 | None \<Rightarrow>
                     (case mx of
                        Some hi \<Rightarrow>
                          if hi < x
                          then Some (''Parameter '' @ paramName @ '' must be <= '' @ numText hi)
                          else None
                      | None \<Rightarrow> None))
            | _ \<Rightarrow> None))"

fun validateEntries ::
  "('n::ord \<Rightarrow> string) \<Rightarrow> 'n ParameterSchema \<Rightarrow> 'n ParameterBag \<Rightarrow> Validation"
where
  "validateEntries numText [] params = \<lparr>valid = True, verror = None\<rparr>"
| "validateEntries numText ((paramName, paramSchema) # rest) params =
     (case checkParameter numText paramName paramSchema (readProperty params paramName) of
        Some reason \<Rightarrow> \<lparr>valid = False, verror = Some reason\<rparr>
      | None \<Rightarrow> validateEntries numText rest params)"

definition validateParameters ::
  "('n::ord \<Rightarrow> string) \<Rightarrow> 'n Tool \<Rightarrow> 'n ParameterBag \<Rightarrow> Validation"
where
  "validateParameters numText tool params =
     validateEntries numText (objectEntries (parameters tool)) params"



section \<open>The oracle (callLLM)\<close>

text \<open>The value \<^verbatim>\<open>{ text?: string; toolCall?: ToolCall }\<close> that the oracle resolves to.\<close>

record 'n LLMResponse =
  resp_text :: "string option"
  resp_toolCall :: "'n ToolCall option"

text \<open>
  \<^verbatim>\<open>callLLM\<close> in the source is a stand-in (``in a real implementation, this would call
  OpenAI, Anthropic, etc.''), and the executor only depends on what a call gives back.
  An oracle is therefore any function of the three arguments of \<^verbatim>\<open>callLLM\<close> (the
  prompt, the transcript at the time of the call, the tool list) that gives a response,
  or \<open>Inl\<close> with a message when the call throws or its promise is rejected.
\<close>

type_synonym 'n Oracle = "string \<Rightarrow> Message list \<Rightarrow> 'n Tool list \<Rightarrow> string + 'n LLMResponse"

text \<open>\<^verbatim>\<open>haystack.includes(needle)\<close>: the needle occurs as a contiguous part.\<close>

fun startsWith :: "string \<Rightarrow> string \<Rightarrow> bool" where
  "startsWith s [] = True"
| "startsWith [] (p # ps) = False"
| "startsWith (c # cs) (p # ps) = (c = p \<and> startsWith cs ps)"

fun includesStr :: "string \<Rightarrow> string \<Rightarrow> bool" where
  "includesStr [] needle = (needle = [])"
| "includesStr (c # cs) needle = (startsWith (c # cs) needle \<or> includesStr cs needle)"

text \<open>The decimal digits of a natural number, as a template literal prints a length.\<close>

fun decimalDigits :: "nat \<Rightarrow> nat \<Rightarrow> string" where
  "decimalDigits 0 n = []"
| "decimalDigits (Suc fuel) n =
     (if n < 10 then [char_of (48 + n)]
      else decimalDigits fuel (n div 10) @ [char_of (48 + n mod 10)])"

definition decimal :: "nat \<Rightarrow> string" where
  "decimal n = decimalDigits (Suc n) n"

text \<open>
  The mock of the source, after its delay. \<^verbatim>\<open>String.prototype.toLowerCase\<close> is a
  primitive of the language and is the argument \<open>toLowerCase\<close>. The mock never throws.
\<close>

definition callLLM ::
  "(string \<Rightarrow> string) \<Rightarrow> string \<Rightarrow> Message list \<Rightarrow> 'n Tool list \<Rightarrow> 'n LLMResponse"
where
  \<open>callLLM toLowerCase prompt' msgs availableTools =
     (let fallback =
        \<lparr>resp_text = Some (''I'' @ [CHR 0x27] @ ''m an AI agent with the following goal: "'' @ prompt' @
            ''". I have access to '' @ decimal (length availableTools) @
            '' tools. How can I help you?''),
         resp_toolCall = None\<rparr>
      in if availableTools \<noteq> [] \<and> msgs \<noteq> [] \<and> role (last msgs) = User
         then (case find (\<lambda>tool. includesStr (toLowerCase (content (last msgs)))
                                        (toLowerCase (name tool))) availableTools of
                 Some tool \<Rightarrow>
                   \<lparr>resp_text = None,
                    resp_toolCall = Some \<lparr>tc_toolName = name tool, tc_parameters = Map.empty\<rparr>\<rparr>
               | None \<Rightarrow> fallback)
         else fallback)\<close>

definition mockOracle :: "(string \<Rightarrow> string) \<Rightarrow> 'n Oracle" where
  "mockOracle toLowerCase prompt' msgs availableTools =
     Inr (callLLM toLowerCase prompt' msgs availableTools)"

section \<open>The executor (class AgentExecutor)\<close>

record 'n AgentExecutor =
  agent :: "'n Agent"
  messages :: "Message list"
  isRunning :: bool

text \<open>
  \<^verbatim>\<open>initializeMessages\<close> replaces the transcript by the system message; \<open>now\<close> is what
  \<^verbatim>\<open>new Date()\<close> reads.
\<close>

definition initializeMessages :: "Date \<Rightarrow> 'n AgentExecutor \<Rightarrow> 'n AgentExecutor" where
  "initializeMessages now this =
     this\<lparr>messages :=
       [\<lparr>role = System, content = prompt (agent this), timestamp = now,
         toolName = None, toolResult = None\<rparr>]\<rparr>"

text \<open>The constructor, with the field initialisers of the class.\<close>

definition newAgentExecutor :: "'n Agent \<Rightarrow> Date \<Rightarrow> 'n AgentExecutor" where
  "newAgentExecutor ag now =
     initializeMessages now \<lparr>agent = ag, messages = [], isRunning = False\<rparr>"

text \<open>
  One call of a tool body, as seen from outside: the name of the tool and the
  parameter bag it received. \<open>executeTool\<close> returns, beside its \<^verbatim>\<open>ToolResult\<close>, the
  list of the calls it made, so that ``the body is not invoked'' can be stated.
\<close>

type_synonym 'n Invocation = "string \<times> 'n ParameterBag"

definition executeTool ::
  "('n::ord \<Rightarrow> string) \<Rightarrow> 'n AgentExecutor \<Rightarrow> 'n ToolCall \<Rightarrow> ToolResult \<times> 'n Invocation list"
where
  \<open>executeTool numText this toolCall =
     (case find (\<lambda>t. name t = tc_toolName toolCall) (tools (agent this)) of
        None \<Rightarrow>
          (\<lparr>tr_toolName = tc_toolName toolCall, success = False, result = None,
            error = Some (''Tool "'' @ tc_toolName toolCall @ ''" not found'')\<rparr>, [])
      | Some tool \<Rightarrow>
          (let validation = validateParameters numText tool (tc_parameters toolCall)
           in if \<not> valid validation
              then (\<lparr>tr_toolName = tc_toolName toolCall, success = False, result = None,
                     error = verror validation\<rparr>, [])
              else (case execute tool (tc_parameters toolCall) of
                      Returned r \<Rightarrow>
                        (\<lparr>tr_toolName = tc_toolName toolCall, success = True,
                          result = Some r, error = None\<rparr>,
                         [(name tool, tc_parameters toolCall)])
                    | ThrewError msg \<Rightarrow>
                        (\<lparr>tr_toolName = tc_toolName toolCall, success = False,
                          result = None, error = Some msg\<rparr>,
                         [(name tool, tc_parameters toolCall)])
                    | ThrewOther \<Rightarrow>
                        (\<lparr>tr_toolName = tc_toolName toolCall, success = False,
                          result = None, error = Some ''Unknown error''\<rparr>,
                         [(name tool, tc_parameters toolCall)]))))\<close>

text \<open>
  What one invocation of \<^verbatim>\<open>run\<close> takes from outside the executor: the oracle, and the
  three readings of the clock (\<^verbatim>\<open>new Date()\<close>) for the user message, the tool message
  and the assistant message.
\<close>

record 'n RunEnv =
  llm :: "'n Oracle"
  userTime :: Date
  toolTime :: Date
  replyTime :: Date

text \<open>
  What \<^verbatim>\<open>run\<close> throws: the guard's \<^verbatim>\<open>Error('Agent is already running')\<close>, or whatever
  an oracle call threw, which nothing in \<^verbatim>\<open>run\<close> catches.
\<close>

datatype RunError = AlreadyRunning | OracleFailure string

definition push :: "Message \<Rightarrow> 'n AgentExecutor \<Rightarrow> 'n AgentExecutor" where
  "push m this = this\<lparr>messages := messages this @ [m]\<rparr>"

definition userMsg :: "string \<Rightarrow> Date \<Rightarrow> Message" where
  "userMsg userMessage now =
     \<lparr>role = User, content = userMessage, timestamp = now, toolName = None, toolResult = None\<rparr>"

text \<open>
  The tool message. \<^verbatim>\<open>toolResult.result!\<close> is read only when \<^verbatim>\<open>success\<close> holds, and
  \<open>executeTool\<close> sets \<^verbatim>\<open>result\<close> whenever it sets \<^verbatim>\<open>success\<close> (lemma
  \<open>executeTool_success_result\<close>). A template literal prints an absent error as
  \<^verbatim>\<open>undefined\<close>.
\<close>

definition toolMsg :: "ToolResult \<Rightarrow> Date \<Rightarrow> Message" where
  "toolMsg toolResult' now =
     \<lparr>role = ToolRole,
      content = (if success toolResult' then the (result toolResult')
                 else ''Error: '' @ (case error toolResult' of Some e \<Rightarrow> e | None \<Rightarrow> ''undefined'')),
      timestamp = now,
      toolName = Some (tr_toolName toolResult'),
      toolResult = (if success toolResult' then result toolResult' else None)\<rparr>"

definition assistantMsg :: "string \<Rightarrow> Date \<Rightarrow> Message" where
  "assistantMsg txt now =
     \<lparr>role = Assistant, content = txt, timestamp = now, toolName = None, toolResult = None\<rparr>"

text \<open>
  The test \<^verbatim>\<open>if (response.text)\<close>: an absent text and the empty string are both falsy.
  The reply that a response contributes is its text when that test passes.
\<close>

definition reply :: "'n LLMResponse \<Rightarrow> Date \<Rightarrow> Message list" where
  "reply response now =
     (case resp_text response of
        None \<Rightarrow> []
      | Some txt \<Rightarrow> if txt = [] then [] else [assistantMsg txt now])"

definition pushAll :: "Message list \<Rightarrow> 'n AgentExecutor \<Rightarrow> 'n AgentExecutor" where
  "pushAll ms this = this\<lparr>messages := messages this @ ms\<rparr>"

text \<open>
  \<^verbatim>\<open>run\<close>, from its call to the settling of its promise, with nothing else scheduled in
  between. The result is what the promise settles to (\<open>Inl\<close>: rejected), the executor
  afterwards, and the calls of tool bodies made. The \<^verbatim>\<open>finally\<close> block is the update
  \<open>isRunning := False\<close> on each path that leaves the \<^verbatim>\<open>try\<close>; the guard is before it.
\<close>

definition run ::
  "('n::ord \<Rightarrow> string) \<Rightarrow> 'n RunEnv \<Rightarrow> string \<Rightarrow> 'n AgentExecutor \<Rightarrow>
     (RunError + Message list) \<times> 'n AgentExecutor \<times> 'n Invocation list"
where
  "run numText env userMessage this =
     (if isRunning this then (Inl AlreadyRunning, this, [])
      else
        let s1 = this\<lparr>isRunning := True\<rparr>;
            s2 = push (userMsg userMessage (userTime env)) s1
        in case llm env (prompt (agent s2)) (messages s2) (tools (agent s2)) of
             Inl e \<Rightarrow> (Inl (OracleFailure e), s2\<lparr>isRunning := False\<rparr>, [])
           | Inr llmResponse \<Rightarrow>
               (case resp_toolCall llmResponse of
                  Some toolCall \<Rightarrow>
                    let (toolResult', calls) = executeTool numText s2 toolCall;
                        s3 = push (toolMsg toolResult' (toolTime env)) s2
                    in (case llm env (prompt (agent s3)) (messages s3) (tools (agent s3)) of
                          Inl e \<Rightarrow> (Inl (OracleFailure e), s3\<lparr>isRunning := False\<rparr>, calls)
                        | Inr finalResponse \<Rightarrow>
                            let s4 = pushAll (reply finalResponse (replyTime env)) s3
                            in (Inr (messages s4), s4\<lparr>isRunning := False\<rparr>, calls))
                | None \<Rightarrow>
                    let s3 = pushAll (reply llmResponse (replyTime env)) s2
                    in (Inr (messages s3), s3\<lparr>isRunning := False\<rparr>, [])))"

text \<open>
  The two calls of the oracle that \<^verbatim>\<open>run\<close> makes on an executor \<open>this\<close> that is not
  busy, with the arguments they get: the decide call sees the transcript with the user
  message, the summarize call sees it with the tool message as well.
\<close>

definition decideCall :: "'n RunEnv \<Rightarrow> string \<Rightarrow> 'n AgentExecutor \<Rightarrow> string + 'n LLMResponse" where
  "decideCall env x this =
     llm env (prompt (agent this)) (messages this @ [userMsg x (userTime env)]) (tools (agent this))"

definition summarizeCall ::
  "'n RunEnv \<Rightarrow> string \<Rightarrow> 'n AgentExecutor \<Rightarrow> ToolResult \<Rightarrow> string + 'n LLMResponse" where
  "summarizeCall env x this tr =
     llm env (prompt (agent this))
       (messages this @ [userMsg x (userTime env), toolMsg tr (toolTime env)]) (tools (agent this))"

text \<open>The other three methods. A copy of a list is the same list, as a value.\<close>

definition getMessages :: "'n AgentExecutor \<Rightarrow> Message list" where
  "getMessages this = messages this"

definition reset :: "Date \<Rightarrow> 'n AgentExecutor \<Rightarrow> 'n AgentExecutor" where
  "reset now this = initializeMessages now this"

definition getTools :: "'n AgentExecutor \<Rightarrow> 'n Tool list" where
  "getTools this = tools (agent this)"

text \<open>The source's own executor: \<open>run\<close> with the mock as the oracle.\<close>

definition mockEnv :: "(string \<Rightarrow> string) \<Rightarrow> Date \<Rightarrow> Date \<Rightarrow> Date \<Rightarrow> 'n RunEnv" where
  "mockEnv toLowerCase t1 t2 t3 =
     \<lparr>llm = mockOracle toLowerCase, userTime = t1, toolTime = t2, replyTime = t3\<rparr>"

section \<open>Suspension points of run\<close>

text \<open>
  \<^verbatim>\<open>run\<close> is an \<^verbatim>\<open>async\<close> function: it runs to its first \<^verbatim>\<open>await\<close>, and other
  calls on the executor can be made before it is resumed. It awaits three things in
  turn: the decide call of the oracle, \<^verbatim>\<open>executeTool\<close>, and the summarize call of the
  oracle. A suspended invocation holds what the awaited promise will settle to: the
  oracle is called, and the tool body is started, before the suspension.
\<close>

datatype 'n Pending =
    AwaitDecide "string + 'n LLMResponse"
  | AwaitTool ToolResult
  | AwaitSummarize "string + 'n LLMResponse"

datatype 'n Progress = Suspended "'n Pending" | Settled "RunError + Message list"

text \<open>From the call to the first \<^verbatim>\<open>await\<close>; \<open>Inl\<close> when the guard throws.\<close>

definition run_begin ::
  "'n RunEnv \<Rightarrow> string \<Rightarrow> 'n AgentExecutor \<Rightarrow> RunError + ('n AgentExecutor \<times> 'n Pending)"
where
  "run_begin env userMessage this =
     (if isRunning this then Inl AlreadyRunning
      else
        let s1 = this\<lparr>isRunning := True\<rparr>;
            s2 = push (userMsg userMessage (userTime env)) s1
        in Inr (s2, AwaitDecide (llm env (prompt (agent s2)) (messages s2) (tools (agent s2)))))"

text \<open>
  From one \<^verbatim>\<open>await\<close> to the next, or to the end. Each step reads \<^verbatim>\<open>this.messages\<close> and
  \<^verbatim>\<open>this.agent\<close> as they are when it runs.
\<close>

fun run_resume ::
  "('n::ord \<Rightarrow> string) \<Rightarrow> 'n RunEnv \<Rightarrow> 'n Pending \<Rightarrow> 'n AgentExecutor \<Rightarrow>
     'n AgentExecutor \<times> 'n Progress \<times> 'n Invocation list"
where
  "run_resume numText env (AwaitDecide (Inl e)) this =
     (this\<lparr>isRunning := False\<rparr>, Settled (Inl (OracleFailure e)), [])"
| "run_resume numText env (AwaitDecide (Inr llmResponse)) this =
     (case resp_toolCall llmResponse of
        Some toolCall \<Rightarrow>
          let (toolResult', calls) = executeTool numText this toolCall
          in (this, Suspended (AwaitTool toolResult'), calls)
      | None \<Rightarrow>
          let s3 = pushAll (reply llmResponse (replyTime env)) this
          in (s3\<lparr>isRunning := False\<rparr>, Settled (Inr (messages s3)), []))"
| "run_resume numText env (AwaitTool toolResult') this =
     (let s3 = push (toolMsg toolResult' (toolTime env)) this
      in (s3, Suspended (AwaitSummarize
                (llm env (prompt (agent s3)) (messages s3) (tools (agent s3)))), []))"
| "run_resume numText env (AwaitSummarize (Inl e)) this =
     (this\<lparr>isRunning := False\<rparr>, Settled (Inl (OracleFailure e)), [])"
| "run_resume numText env (AwaitSummarize (Inr finalResponse)) this =
     (let s4 = pushAll (reply finalResponse (replyTime env)) this
      in (s4\<lparr>isRunning := False\<rparr>, Settled (Inr (messages s4)), []))"

text \<open>
  An executor together with the invocation of \<^verbatim>\<open>run\<close> that is suspended on it, if any,
  and what can happen to it next: a new call of \<^verbatim>\<open>run\<close>, the suspended invocation
  resumed, or \<^verbatim>\<open>reset\<close> called. A call of \<^verbatim>\<open>run\<close> that the guard rejects leaves
  everything as it was; \<^verbatim>\<open>getMessages\<close> and \<^verbatim>\<open>getTools\<close> change nothing and are left
  out.
\<close>

record 'n Session =
  exec :: "'n AgentExecutor"
  inflight :: "('n RunEnv \<times> 'n Pending) option"

datatype 'n Event = Invoke "'n RunEnv" string | Resume | Reset Date

fun step :: "('n::ord \<Rightarrow> string) \<Rightarrow> 'n Session \<Rightarrow> 'n Event \<Rightarrow> 'n Session" where
  "step numText s (Invoke env userMessage) =
     (case run_begin env userMessage (exec s) of
        Inl e \<Rightarrow> s
      | Inr (this, p) \<Rightarrow> \<lparr>exec = this, inflight = Some (env, p)\<rparr>)"
| "step numText s Resume =
     (case inflight s of
        None \<Rightarrow> s
      | Some (env, p) \<Rightarrow>
          (case run_resume numText env p (exec s) of
             (this, Suspended p', calls) \<Rightarrow> \<lparr>exec = this, inflight = Some (env, p')\<rparr>
           | (this, Settled r, calls) \<Rightarrow> \<lparr>exec = this, inflight = None\<rparr>))"
| "step numText s (Reset now) = s\<lparr>exec := reset now (exec s)\<rparr>"

definition newSession :: "'n Agent \<Rightarrow> Date \<Rightarrow> 'n Session" where
  "newSession ag now = \<lparr>exec = newAgentExecutor ag now, inflight = None\<rparr>"

definition afterEvents :: "('n::ord \<Rightarrow> string) \<Rightarrow> 'n Session \<Rightarrow> 'n Event list \<Rightarrow> 'n Session" where
  "afterEvents numText s events = foldl (step numText) s events"

text \<open>
  A suspended invocation resumed again and again with nothing in between, for at most
  \<open>k\<close> steps; \<open>None\<close> when it has not settled by then.
\<close>

fun drive ::
  "('n::ord \<Rightarrow> string) \<Rightarrow> 'n RunEnv \<Rightarrow> nat \<Rightarrow> 'n AgentExecutor \<Rightarrow> 'n Pending \<Rightarrow>
     'n Invocation list \<Rightarrow> ((RunError + Message list) \<times> 'n AgentExecutor \<times> 'n Invocation list) option"
where
  "drive numText env 0 this p calls = None"
| "drive numText env (Suc k) this p calls =
     (case run_resume numText env p this of
        (this', Suspended p', c) \<Rightarrow> drive numText env k this' p' (calls @ c)
      | (this', Settled r, c) \<Rightarrow> Some (r, this', calls @ c))"

text \<open>
  A sequence of invocations of \<^verbatim>\<open>run\<close>, each one made after the one before has settled,
  and each with its own environment and input; the executor after the last of them.
\<close>

definition runAll ::
  "('n::ord \<Rightarrow> string) \<Rightarrow> 'n AgentExecutor \<Rightarrow> ('n RunEnv \<times> string) list \<Rightarrow> 'n AgentExecutor" where
  "runAll numText this turns = foldl (\<lambda>s (env, x). fst (snd (run numText env x s))) this turns"

text \<open>The flag of the executor is set exactly while an invocation is suspended on it.\<close>

definition flagMatches :: "'n Session \<Rightarrow> bool" where
  "flagMatches s \<longleftrightarrow> (isRunning (exec s) \<longleftrightarrow> inflight s \<noteq> None)"

section \<open>Arrays and objects as references\<close>

text \<open>
  \<^verbatim>\<open>getMessages\<close> and \<^verbatim>\<open>getTools\<close> hand arrays to the caller, and an array is a
  mutable object that holds references to mutable objects. Where that matters the
  store is explicit: arrays are lists of references, and \<^verbatim>\<open>Message\<close> and \<^verbatim>\<open>Tool\<close>
  objects live at references. \<open>nextRef\<close> is the next reference to allocate.
\<close>

type_synonym ref = nat

record 'n Heap =
  arrays :: "ref \<rightharpoonup> ref list"
  messageObjs :: "ref \<rightharpoonup> Message"
  toolObjs :: "ref \<rightharpoonup> 'n Tool"
  nextRef :: ref

text \<open>The two fields of the executor that hold arrays: \<^verbatim>\<open>this.messages\<close> and \<^verbatim>\<open>this.agent.tools\<close>.\<close>

record ExecutorObj =
  messagesRef :: ref
  toolsRef :: ref

text \<open>\<^verbatim>\<open>return [...this.messages]\<close>: a new array with the same elements.\<close>

definition h_getMessages :: "ExecutorObj \<Rightarrow> 'n Heap \<Rightarrow> ref \<times> 'n Heap" where
  "h_getMessages this h =
     (nextRef h,
      h\<lparr>arrays := (arrays h)(nextRef h := arrays h (messagesRef this)),
        nextRef := Suc (nextRef h)\<rparr>)"

text \<open>\<^verbatim>\<open>return this.agent.tools\<close>: the array itself.\<close>

definition h_getTools :: "ExecutorObj \<Rightarrow> 'n Heap \<Rightarrow> ref \<times> 'n Heap" where
  "h_getTools this h = (toolsRef this, h)"

text \<open>What reading an array gives: its elements, each looked up in the store.\<close>

definition readMessages :: "'n Heap \<Rightarrow> ref \<Rightarrow> Message option list" where
  "readMessages h a = (case arrays h a of None \<Rightarrow> [] | Some rs \<Rightarrow> map (messageObjs h) rs)"

definition readTools :: "'n Heap \<Rightarrow> ref \<Rightarrow> 'n Tool option list" where
  "readTools h a = (case arrays h a of None \<Rightarrow> [] | Some rs \<Rightarrow> map (toolObjs h) rs)"

text \<open>What the later operations of the executor see of its transcript and tool list.\<close>

definition transcript :: "ExecutorObj \<Rightarrow> 'n Heap \<Rightarrow> Message option list" where
  "transcript this h = readMessages h (messagesRef this)"

definition toolList :: "ExecutorObj \<Rightarrow> 'n Heap \<Rightarrow> 'n Tool option list" where
  "toolList this h = readTools h (toolsRef this)"

text \<open>
  What a caller can do to a value it was handed. Every change of an array in place
  (\<^verbatim>\<open>push\<close>, \<^verbatim>\<open>pop\<close>, \<^verbatim>\<open>splice\<close>, an assignment to an element or to \<^verbatim>\<open>length\<close>)
  gives the array new elements, \<open>arrayWrite\<close>; \<open>setContent\<close> is the assignment
  \<^verbatim>\<open>message.content = s\<close> to an element.
\<close>

definition arrayWrite :: "ref \<Rightarrow> ref list \<Rightarrow> 'n Heap \<Rightarrow> 'n Heap" where
  "arrayWrite a rs h = h\<lparr>arrays := (arrays h)(a \<mapsto> rs)\<rparr>"

definition setContent :: "ref \<Rightarrow> string \<Rightarrow> 'n Heap \<Rightarrow> 'n Heap" where
  "setContent m s h =
     (case messageObjs h m of
        None \<Rightarrow> h
      | Some msg \<Rightarrow> h\<lparr>messageObjs := (messageObjs h)(m \<mapsto> msg\<lparr>content := s\<rparr>)\<rparr>)"

text \<open>
  The store holds the executor \<open>this\<close> at \<open>obj\<close> when the two arrays read as the
  transcript and the tool list of \<open>this\<close>, and both were allocated before \<open>nextRef\<close>.
\<close>

definition holds :: "'n Heap \<Rightarrow> ExecutorObj \<Rightarrow> 'n AgentExecutor \<Rightarrow> bool" where
  "holds h obj this \<longleftrightarrow>
     messagesRef obj < nextRef h \<and> toolsRef obj < nextRef h \<and>
     arrays h (messagesRef obj) \<noteq> None \<and> arrays h (toolsRef obj) \<noteq> None \<and>
     transcript obj h = map Some (messages this) \<and>
     toolList obj h = map Some (tools (agent this))"

section \<open>Concrete inputs\<close>

text \<open>
  Integers as the numbers, printed in decimal as a template literal prints them, and the
  tool of the specification's round-trip example (named \<^verbatim>\<open>echo\<close>, with a required
  string parameter \<^verbatim>\<open>text\<close>), here with a bounded number as a second parameter.
\<close>

definition intText :: "int \<Rightarrow> string" where
  "intText i = (if i < 0 then ''-'' @ decimal (nat (- i)) else decimal (nat i))"

definition textParam :: "int ToolParameter" where
  "textParam = StringParam ''The text to return'' (Some True) None"

definition countParam :: "int ToolParameter" where
  "countParam = NumberParam ''How many times'' None None (Some 1) (Some 5)"

definition echoTool :: "int Tool" where
  "echoTool =
     \<lparr>name = ''echo'', description = ''Returns its input'',
      parameters = [(''text'', textParam), (''count'', countParam)],
      execute = (\<lambda>bag. case bag ''text'' of
                          Some (VString s) \<Rightarrow> Returned s
                        | _ \<Rightarrow> ThrewError ''text is not a string'')\<rparr>"






text \<open>
  Two tools whose bodies fail (the calculator of the source throws this error on a
  division by zero), an agent with the three tools, and an oracle that answers the
  decide call with \<open>decide\<close> and the summarize call, which it recognises by the tool
  message at the end of the transcript, with \<open>summarize\<close>.
\<close>

definition brokenTool :: "int Tool" where
  "brokenTool =
     \<lparr>name = ''divide'', description = ''Always fails'', parameters = [],
      execute = (\<lambda>bag. ThrewError ''Cannot divide by zero'')\<rparr>"

definition oddTool :: "int Tool" where
  "oddTool =
     \<lparr>name = ''odd'', description = ''Throws a value that is not an Error'', parameters = [],
      execute = (\<lambda>bag. ThrewOther)\<rparr>"

definition exampleAgent :: "int Agent" where
  "exampleAgent =
     \<lparr>agent_id = ''example-agent-1'', agent_name = ''Demo Assistant'',
      prompt = ''You are a helpful assistant.'',
      tools = [echoTool, brokenTool, oddTool], createdAt = 0, updatedAt = 0\<rparr>"

definition scriptedOracle ::
  "(string + 'n LLMResponse) \<Rightarrow> (string + 'n LLMResponse) \<Rightarrow> 'n Oracle" where
  "scriptedOracle decide summarize prompt' msgs availableTools =
     (if msgs \<noteq> [] \<and> role (last msgs) = ToolRole then summarize else decide)"

definition scriptedEnv ::
  "(string + 'n LLMResponse) \<Rightarrow> (string + 'n LLMResponse) \<Rightarrow> 'n RunEnv" where
  "scriptedEnv decide summarize =
     \<lparr>llm = scriptedOracle decide summarize, userTime = 1, toolTime = 2, replyTime = 3\<rparr>"

definition textResponse :: "string \<Rightarrow> int LLMResponse" where
  "textResponse txt = \<lparr>resp_text = Some txt, resp_toolCall = None\<rparr>"

definition toolCallResponse :: "string \<Rightarrow> int ParameterBag \<Rightarrow> int LLMResponse" where
  "toolCallResponse n bag =
     \<lparr>resp_text = None, resp_toolCall = Some \<lparr>tc_toolName = n, tc_parameters = bag\<rparr>\<rparr>"

definition silentResponse :: "int LLMResponse" where
  "silentResponse = \<lparr>resp_text = None, resp_toolCall = None\<rparr>"

definition fresh :: "int AgentExecutor" where
  "fresh = newAgentExecutor exampleAgent 0"

definition hiBag :: "int ParameterBag" where
  "hiBag = [''text'' \<mapsto> VString ''hi'']"

definition echoEnv :: "int RunEnv" where
  "echoEnv = scriptedEnv (Inr (toolCallResponse ''echo'' hiBag)) (Inr (textResponse ''done''))"

definition chainEnv :: "int RunEnv" where
  "chainEnv = scriptedEnv (Inr (toolCallResponse ''echo'' hiBag))
                          (Inr (toolCallResponse ''divide'' Map.empty))"

definition unknownEnv :: "int RunEnv" where
  "unknownEnv = scriptedEnv (Inr (toolCallResponse ''doesNotExist'' Map.empty))
                            (Inr (textResponse ''sorry''))"

definition invalidEnv :: "int RunEnv" where
  "invalidEnv = scriptedEnv (Inr (toolCallResponse ''echo'' Map.empty)) (Inr silentResponse)"

definition brokenEnv :: "int RunEnv" where
  "brokenEnv = scriptedEnv (Inr (toolCallResponse ''divide'' Map.empty)) (Inl ''network down'')"

definition silentEnv :: "int RunEnv" where
  "silentEnv = scriptedEnv (Inr silentResponse) (Inr silentResponse)"

definition directEnv :: "int RunEnv" where
  "directEnv = scriptedEnv (Inr (textResponse ''Hello!'')) (Inr silentResponse)"

definition systemMsg :: "Date \<Rightarrow> Message" where
  "systemMsg now = \<lparr>role = System, content = ''You are a helpful assistant.'', timestamp = now,
      toolName = None, toolResult = None\<rparr>"

definition echoResult :: ToolResult where
  "echoResult = \<lparr>tr_toolName = ''echo'', success = True, result = Some ''hi'', error = None\<rparr>"

definition echoTranscript :: "Message list" where
  "echoTranscript =
     [systemMsg 0,
      \<lparr>role = User, content = ''say hi'', timestamp = 1, toolName = None, toolResult = None\<rparr>,
      \<lparr>role = ToolRole, content = ''hi'', timestamp = 2, toolName = Some ''echo'',
       toolResult = Some ''hi''\<rparr>,
      \<lparr>role = Assistant, content = ''done'', timestamp = 3, toolName = None, toolResult = None\<rparr>]"

definition notFoundMsg :: Message where
  \<open>notFoundMsg = \<lparr>role = ToolRole, content = ''Error: Tool "doesNotExist" not found'',
      timestamp = 2, toolName = Some ''doesNotExist'', toolResult = None\<rparr>\<close>

definition emptyBag :: "int ParameterBag" where
  "emptyBag = Map.empty"

definition callOf :: "string \<Rightarrow> int ToolCall" where
  "callOf n = \<lparr>tc_toolName = n, tc_parameters = emptyBag\<rparr>"

text \<open>
  An executor in the middle of a run (suspended on the decide call), and a store that
  holds the new executor of the example agent.
\<close>

definition midRun :: "int Session" where
  "midRun = afterEvents intText (newSession exampleAgent 0) [Invoke directEnv ''hi'']"

definition heap0 :: "int Heap" where
  "heap0 =
     \<lparr>arrays = [0 \<mapsto> [2], 1 \<mapsto> [3, 4, 5]],
      messageObjs = [2 \<mapsto> systemMsg 0],
      toolObjs = [3 \<mapsto> echoTool, 4 \<mapsto> brokenTool, 5 \<mapsto> oddTool],
      nextRef = 6\<rparr>"

definition obj0 :: ExecutorObj where
  "obj0 = \<lparr>messagesRef = 0, toolsRef = 1\<rparr>"

text \<open>
  The store after the caller has changed what it was handed: the content of the element
  of the array from \<^verbatim>\<open>getMessages\<close>, and the array from \<^verbatim>\<open>getTools\<close>, emptied.
\<close>

definition heap1 :: "int Heap" where
  "heap1 = setContent 2 ''changed'' (snd (h_getMessages obj0 heap0))"

definition heap2 :: "int Heap" where
  "heap2 = arrayWrite (fst (h_getTools obj0 heap0)) [] (snd (h_getTools obj0 heap0))"

section \<open>Properties of the validator\<close>





lemma validateEntries_verror_iff:
  "verror (validateEntries numText ps bag) = None \<longleftrightarrow> valid (validateEntries numText ps bag)"
  by (induction ps) (auto split: option.splits)








lemma echo_params: "parameters echoTool = [(''text'', textParam), (''count'', countParam)]"
  by (simp add: echoTool_def)

lemma echo_entries:
  "objectEntries (parameters echoTool) = [(''text'', textParam), (''count'', countParam)]"
  by (simp add: objectEntries_def echo_params arrayIndex_def)

lemma read_text: "readProperty bag ''text'' = bag ''text''"
  by (simp add: readProperty_def objectPrototype_def split: option.splits)

lemma read_count: "readProperty bag ''count'' = bag ''count''"
  by (simp add: readProperty_def objectPrototype_def split: option.splits)




section \<open>Properties of executeTool and run\<close>

lemma executeTool_agent:
  "agent s = agent s' \<Longrightarrow> executeTool numText s tc = executeTool numText s' tc"
  by (simp add: executeTool_def)

lemma executeTool_success_result:
  "executeTool numText this tc = (tr, calls) \<Longrightarrow> success tr \<Longrightarrow> result tr \<noteq> None"
  by (auto simp: executeTool_def Let_def split: option.splits if_splits exec_outcome.splits)

lemma executeTool_calls_le: "length (snd (executeTool numText this tc)) \<le> 1"
  by (auto simp: executeTool_def Let_def split: option.splits if_splits exec_outcome.splits)

lemma run_busy: "isRunning this \<Longrightarrow> run numText env x this = (Inl AlreadyRunning, this, [])"
  by (simp add: run_def)

lemma run_decide_fails:
  "\<not> isRunning this \<Longrightarrow> decideCall env x this = Inl e \<Longrightarrow>
   run numText env x this =
     (Inl (OracleFailure e),
      this\<lparr>messages := messages this @ [userMsg x (userTime env)], isRunning := False\<rparr>, [])"
  by (simp add: run_def decideCall_def push_def Let_def)

lemma run_direct:
  "\<not> isRunning this \<Longrightarrow> decideCall env x this = Inr d \<Longrightarrow> resp_toolCall d = None \<Longrightarrow>
   run numText env x this =
     (Inr (messages this @ userMsg x (userTime env) # reply d (replyTime env)),
      this\<lparr>messages := messages this @ userMsg x (userTime env) # reply d (replyTime env),
           isRunning := False\<rparr>, [])"
  by (simp add: run_def decideCall_def push_def pushAll_def Let_def)

lemma run_tool_summarize_fails:
  "\<not> isRunning this \<Longrightarrow> decideCall env x this = Inr d \<Longrightarrow> resp_toolCall d = Some tc \<Longrightarrow>
   executeTool numText this tc = (tr, calls) \<Longrightarrow> summarizeCall env x this tr = Inl e \<Longrightarrow>
   run numText env x this =
     (Inl (OracleFailure e),
      this\<lparr>messages := messages this @ [userMsg x (userTime env), toolMsg tr (toolTime env)],
           isRunning := False\<rparr>, calls)"
  using executeTool_agent[of "push (userMsg x (userTime env)) (this\<lparr>isRunning := True\<rparr>)" this numText tc]
  by (simp add: run_def decideCall_def summarizeCall_def push_def pushAll_def Let_def)

lemma run_tool:
  "\<not> isRunning this \<Longrightarrow> decideCall env x this = Inr d \<Longrightarrow> resp_toolCall d = Some tc \<Longrightarrow>
   executeTool numText this tc = (tr, calls) \<Longrightarrow> summarizeCall env x this tr = Inr f \<Longrightarrow>
   run numText env x this =
     (Inr (messages this @ userMsg x (userTime env) # toolMsg tr (toolTime env) #
             reply f (replyTime env)),
      this\<lparr>messages := messages this @ userMsg x (userTime env) # toolMsg tr (toolTime env) #
             reply f (replyTime env),
           isRunning := False\<rparr>, calls)"
  using executeTool_agent[of "push (userMsg x (userTime env)) (this\<lparr>isRunning := True\<rparr>)" this numText tc]
  by (simp add: run_def decideCall_def summarizeCall_def push_def pushAll_def Let_def)


lemma run_cases:
  obtains
    (decide_fails) e where "decideCall env x this = Inl e"
  | (direct) d where "decideCall env x this = Inr d" "resp_toolCall d = None"
  | (summarize_fails) d tc tr calls e where "decideCall env x this = Inr d"
      "resp_toolCall d = Some tc" "executeTool numText this tc = (tr, calls)"
      "summarizeCall env x this tr = Inl e"
  | (tool) d tc tr calls f where "decideCall env x this = Inr d"
      "resp_toolCall d = Some tc" "executeTool numText this tc = (tr, calls)"
      "summarizeCall env x this tr = Inr f"
proof (cases "decideCall env x this")
  case (Inl e) then show ?thesis by (rule decide_fails)
next
  case dec: (Inr d)
  show ?thesis
  proof (cases "resp_toolCall d")
    case None with dec show ?thesis by (rule direct)
  next
    case (Some tc)
    obtain tr calls where ex: "executeTool numText this tc = (tr, calls)"
      by (cases "executeTool numText this tc")
    show ?thesis
    proof (cases "summarizeCall env x this tr")
      case (Inl e) with dec Some ex show ?thesis by (rule summarize_fails)
    next
      case (Inr f) with dec Some ex show ?thesis by (rule tool)
    qed
  qed
qed

lemma resume_idle:
  "inflight s = None \<Longrightarrow> afterEvents numText s (replicate k Resume) = s"
  by (induction k) (simp_all add: afterEvents_def)

lemma run_uninterrupted:
  assumes nr: "\<not> isRunning this"
  shows "afterEvents numText \<lparr>exec = this, inflight = None\<rparr> [Invoke env x, Resume, Resume, Resume] =
           \<lparr>exec = fst (snd (run numText env x this)), inflight = None\<rparr>"
proof -
  let ?s = "this\<lparr>messages := messages this @ [userMsg x (userTime env)], isRunning := True\<rparr>"
  have ag: "agent ?s = agent this" by simp
  have beg: "run_begin env x this = Inr (?s, AwaitDecide (decideCall env x this))"
    using nr by (simp add: run_begin_def push_def decideCall_def Let_def)
  show ?thesis
  proof (cases rule: run_cases[where env = env and x = x and numText = numText and this = this])
    case (decide_fails e)
    with run_decide_fails[OF nr this, of numText] beg show ?thesis
      by (simp add: afterEvents_def)
  next
    case (direct d)
    with run_direct[OF nr direct, of numText] beg show ?thesis
      by (simp add: afterEvents_def pushAll_def Let_def)
  next
    case (summarize_fails d tc tr calls' e)
    with run_tool_summarize_fails[OF nr summarize_fails] executeTool_agent[OF ag, of numText tc] beg
    show ?thesis
      by (simp add: afterEvents_def push_def summarizeCall_def Let_def)
  next
    case (tool d tc tr calls' f)
    with run_tool[OF nr tool] executeTool_agent[OF ag, of numText tc] beg
    show ?thesis
      by (simp add: afterEvents_def push_def pushAll_def summarizeCall_def Let_def)
  qed
qed

lemma run_uninterrupted_more:
  assumes nr: "\<not> isRunning this"
  shows "afterEvents numText \<lparr>exec = this, inflight = None\<rparr>
           (Invoke env x # replicate (3 + k) Resume) =
         \<lparr>exec = fst (snd (run numText env x this)), inflight = None\<rparr>"
proof -
  have "Invoke env x # replicate (3 + k) Resume =
        [Invoke env x, Resume, Resume, Resume] @ replicate k Resume"
    by (simp add: numeral_3_eq_3)
  then have "afterEvents numText \<lparr>exec = this, inflight = None\<rparr>
           (Invoke env x # replicate (3 + k) Resume) =
      afterEvents numText
        (afterEvents numText \<lparr>exec = this, inflight = None\<rparr>
           [Invoke env x, Resume, Resume, Resume])
        (replicate k Resume)"
    by (simp only: afterEvents_def foldl_append)
  also have "\<dots> = \<lparr>exec = fst (snd (run numText env x this)), inflight = None\<rparr>"
    by (simp add: run_uninterrupted[OF nr] resume_idle)
  finally show ?thesis .
qed

text \<open>
  C2, as the code has it. \<open>run\<close> is the invocation from its call to its settling with
  no \<^verbatim>\<open>reset\<close> in between: the executor that it gives is the one that the call
  followed by resumptions alone gives. When \<open>run\<close> on the input \<open>x\<close> returns normally
  with the transcript \<open>ms\<close>, then \<open>ms\<close> is the transcript of the executor afterwards,
  and it is the transcript before with these appended, in this order: the user message
  with content \<open>x\<close>; the tool message, exactly when the decide outcome holds a tool
  call; and the reply of the relevant outcome (the summarize outcome after a tool call,
  the decide outcome otherwise). The reply is one assistant message with the text of
  the outcome when the outcome yields text, and nothing otherwise; the source tests the
  text for truthiness, so a text that is empty counts as no text. The transcript before
  is a prefix of the new one: no earlier message is changed or removed.
\<close>

theorem run_appends_in_order:
  assumes ok: "run numText env x this = (Inr ms, this', calls)"
  shows "ms = messages this' \<and>
    (\<exists>d. decideCall env x this = Inr d \<and>
       (case resp_toolCall d of
          None \<Rightarrow>
            messages this' = messages this @ [userMsg x (userTime env)] @ reply d (replyTime env)
        | Some tc \<Rightarrow>
            (\<exists>f. summarizeCall env x this (fst (executeTool numText this tc)) = Inr f \<and>
               messages this' =
                 messages this @ [userMsg x (userTime env)] @
                 [toolMsg (fst (executeTool numText this tc)) (toolTime env)] @
                 reply f (replyTime env)))) \<and>
    role (userMsg x (userTime env)) = User \<and> content (userMsg x (userTime env)) = x \<and>
    (\<forall>tr. role (toolMsg tr (toolTime env)) = ToolRole) \<and>
    (\<forall>r. reply r (replyTime env) =
       (case resp_text r of
          None \<Rightarrow> []
        | Some txt \<Rightarrow>
            if txt = [] then []
            else [\<lparr>role = Assistant, content = txt, timestamp = replyTime env,
                   toolName = None, toolResult = None\<rparr>])) \<and>
    (\<forall>k. afterEvents numText \<lparr>exec = this, inflight = None\<rparr>
            (Invoke env x # replicate (3 + k) Resume) =
          \<lparr>exec = this', inflight = None\<rparr>)"
proof -
  have nr: "\<not> isRunning this"
    using ok by (auto simp: run_def)
  have sess: "\<forall>k. afterEvents numText \<lparr>exec = this, inflight = None\<rparr>
            (Invoke env x # replicate (3 + k) Resume) =
          \<lparr>exec = this', inflight = None\<rparr>"
    using run_uninterrupted_more[OF nr, of numText env x] ok by simp
  have main: "ms = messages this' \<and>
    (\<exists>d. decideCall env x this = Inr d \<and>
       (case resp_toolCall d of
          None \<Rightarrow>
            messages this' = messages this @ [userMsg x (userTime env)] @ reply d (replyTime env)
        | Some tc \<Rightarrow>
            (\<exists>f. summarizeCall env x this (fst (executeTool numText this tc)) = Inr f \<and>
               messages this' =
                 messages this @ [userMsg x (userTime env)] @
                 [toolMsg (fst (executeTool numText this tc)) (toolTime env)] @
                 reply f (replyTime env))))"
  proof (cases rule: run_cases[where env = env and x = x and numText = numText and this = this])
    case (decide_fails e)
    with ok run_decide_fails[OF nr this, of numText] show ?thesis by simp
  next
    case (direct d)
    with ok run_direct[OF nr direct, of numText] show ?thesis by auto
  next
    case (summarize_fails d tc tr calls' e)
    with ok run_tool_summarize_fails[OF nr summarize_fails] show ?thesis by simp
  next
    case (tool d tc tr calls' f)
    with ok run_tool[OF nr tool] show ?thesis by auto
  qed
  have roles: "role (userMsg x (userTime env)) = User \<and> content (userMsg x (userTime env)) = x \<and>
    (\<forall>tr. role (toolMsg tr (toolTime env)) = ToolRole)"
    by (simp add: userMsg_def toolMsg_def)
  have rep: "\<forall>r. reply r (replyTime env) =
       (case resp_text r of
          None \<Rightarrow> []
        | Some txt \<Rightarrow>
            if txt = [] then []
            else [\<lparr>role = Assistant, content = txt, timestamp = replyTime env,
                   toolName = None, toolResult = None\<rparr>])"
    by (simp add: reply_def assistantMsg_def split: option.splits)
  from main roles rep sess show ?thesis by blast
qed

text \<open>
  C10. When the decide outcome holds neither a tool call nor a text, \<open>run\<close> returns
  normally: it appends the user message and nothing else, calls no tool body, and
  clears the flag.
\<close>

theorem run_malformed_outcome:
  assumes "\<not> isRunning this"
    and "decideCall env x this = Inr d"
    and "resp_toolCall d = None" and "resp_text d = None"
  shows "run numText env x this =
     (Inr (messages this @ [userMsg x (userTime env)]),
      this\<lparr>messages := messages this @ [userMsg x (userTime env)], isRunning := False\<rparr>, [])"
  using run_direct[OF assms(1,2,3), of numText] assms(4) by (simp add: reply_def)


lemma executeTool_not_found:
  \<open>find (\<lambda>t. name t = tc_toolName tc) (tools (agent this)) = None \<Longrightarrow>
   executeTool numText this tc =
     (\<lparr>tr_toolName = tc_toolName tc, success = False, result = None,
       error = Some (''Tool "'' @ tc_toolName tc @ ''" not found'')\<rparr>, [])\<close>
  by (simp add: executeTool_def)

lemma find_None_names:
  "(find (\<lambda>t. name t = n) ts = None) = (\<forall>t \<in> set ts. name t \<noteq> n)"
  by (auto simp: find_None_iff)

text \<open>
  C6. When the decide outcome asks for a tool whose name is the name of no tool of the
  agent (names are compared as strings, exactly), \<open>run\<close> appends, after the user
  message, a tool message whose content is exactly \<^verbatim>\<open>Error: Tool "<name>" not found\<close>,
  with \<^verbatim>\<open>toolName\<close> the requested name and \<^verbatim>\<open>toolResult\<close> unset, calls no tool body, and
  goes on to the summarize call. Nothing is thrown for the unknown tool: \<open>run\<close> returns
  the transcript, unless the summarize call of the oracle itself throws.
\<close>

theorem run_unknown_tool:
  assumes nr: \<open>\<not> isRunning this\<close>
    and dec: \<open>decideCall env x this = Inr d\<close>
    and tc: \<open>resp_toolCall d = Some tc\<close>
    and unknown: \<open>\<forall>t \<in> set (tools (agent this)). name t \<noteq> tc_toolName tc\<close>
  shows \<open>run numText env x this =
     (let notFound =
            \<lparr>role = ToolRole,
             content = ''Error: Tool "'' @ tc_toolName tc @ ''" not found'',
             timestamp = toolTime env,
             toolName = Some (tc_toolName tc),
             toolResult = None\<rparr>;
          ms = messages this @ [userMsg x (userTime env), notFound]
      in case llm env (prompt (agent this)) ms (tools (agent this)) of
           Inl e \<Rightarrow> (Inl (OracleFailure e), this\<lparr>messages := ms, isRunning := False\<rparr>, [])
         | Inr f \<Rightarrow>
             (Inr (ms @ reply f (replyTime env)),
              this\<lparr>messages := ms @ reply f (replyTime env), isRunning := False\<rparr>, []))\<close>
proof -
  let ?tr = \<open>\<lparr>tr_toolName = tc_toolName tc, success = False, result = None,
       error = Some (''Tool "'' @ tc_toolName tc @ ''" not found'')\<rparr>\<close>
  let ?nf = \<open>\<lparr>role = ToolRole,
      content = ''Error: Tool "'' @ tc_toolName tc @ ''" not found'',
      timestamp = toolTime env, toolName = Some (tc_toolName tc), toolResult = None\<rparr>\<close>
  let ?ms = "messages this @ [userMsg x (userTime env), ?nf]"
  have ex: "executeTool numText this tc = (?tr, [])"
    using unknown by (intro executeTool_not_found) (simp add: find_None_names)
  have tm: "toolMsg ?tr (toolTime env) = ?nf"
    by (simp add: toolMsg_def)
  have sc: "summarizeCall env x this ?tr = llm env (prompt (agent this)) ?ms (tools (agent this))"
    by (simp only: summarizeCall_def tm)
  show ?thesis
  proof (cases "llm env (prompt (agent this)) ?ms (tools (agent this))")
    case (Inl e)
    have "summarizeCall env x this ?tr = Inl e"
      using sc Inl by (simp only:)
    from run_tool_summarize_fails[OF nr dec tc ex this, unfolded tm]
    have "run numText env x this =
        (Inl (OracleFailure e), this\<lparr>messages := ?ms, isRunning := False\<rparr>, [])"
      by simp
    then show ?thesis
      by (simp only: Let_def Inl sum.case)
  next
    case (Inr f)
    have "summarizeCall env x this ?tr = Inr f"
      using sc Inr by (simp only:)
    from run_tool[OF nr dec tc ex this, unfolded tm]
    have "run numText env x this =
        (Inr (?ms @ reply f (replyTime env)),
         this\<lparr>messages := ?ms @ reply f (replyTime env), isRunning := False\<rparr>, [])"
      by simp
    then show ?thesis
      by (simp only: Let_def Inr sum.case)
  qed
qed

lemma executeTool_invalid:
  "find (\<lambda>t. name t = tc_toolName tc) (tools (agent this)) = Some tool \<Longrightarrow>
   \<not> valid (validateParameters numText tool (tc_parameters tc)) \<Longrightarrow>
   executeTool numText this tc =
     (\<lparr>tr_toolName = tc_toolName tc, success = False, result = None,
       error = verror (validateParameters numText tool (tc_parameters tc))\<rparr>, [])"
  by (simp add: executeTool_def)

lemma executeTool_valid:
  "find (\<lambda>t. name t = tc_toolName tc) (tools (agent this)) = Some tool \<Longrightarrow>
   valid (validateParameters numText tool (tc_parameters tc)) \<Longrightarrow>
   executeTool numText this tc =
     (case execute tool (tc_parameters tc) of
        Returned r \<Rightarrow>
          \<lparr>tr_toolName = tc_toolName tc, success = True, result = Some r, error = None\<rparr>
      | ThrewError msg \<Rightarrow>
          \<lparr>tr_toolName = tc_toolName tc, success = False, result = None, error = Some msg\<rparr>
      | ThrewOther \<Rightarrow>
          \<lparr>tr_toolName = tc_toolName tc, success = False, result = None,
           error = Some ''Unknown error''\<rparr>,
      [(name tool, tc_parameters tc)])"
  by (simp add: executeTool_def split: exec_outcome.splits)

lemma validateParameters_invalid_reason:
  "\<not> valid (validateParameters numText tool bag) \<Longrightarrow>
   \<exists>reason. verror (validateParameters numText tool bag) = Some reason"
  using validateEntries_verror_iff[of numText "objectEntries (parameters tool)" bag]
  by (cases "verror (validateParameters numText tool bag)") (auto simp: validateParameters_def)

lemma executeTool_failure_has_error:
  "executeTool numText this tc = (tr, calls) \<Longrightarrow> \<not> success tr \<Longrightarrow>
   \<exists>reason. error tr = Some reason \<and> result tr = None"
  by (auto simp: executeTool_def Let_def dest: validateParameters_invalid_reason
      split: option.splits if_splits exec_outcome.splits)

lemma toolMsg_failure:
  "\<not> success tr \<Longrightarrow> error tr = Some reason \<Longrightarrow>
   toolMsg tr now =
     \<lparr>role = ToolRole, content = ''Error: '' @ reason, timestamp = now,
      toolName = Some (tr_toolName tr), toolResult = None\<rparr>"
  by (simp add: toolMsg_def)

lemma run_error_origin:
  assumes "fst (run numText env x this) = Inl err"
  shows "(isRunning this \<and> err = AlreadyRunning) \<or>
         (\<not> isRunning this \<and>
          (\<exists>e. err = OracleFailure e \<and>
             (decideCall env x this = Inl e \<or>
              (\<exists>d tc. decideCall env x this = Inr d \<and> resp_toolCall d = Some tc \<and>
                 summarizeCall env x this (fst (executeTool numText this tc)) = Inl e))))"
proof (cases "isRunning this")
  case True
  with assms show ?thesis by (simp add: run_busy)
next
  case nr: False
  show ?thesis
  proof (cases rule: run_cases[where env = env and x = x and numText = numText and this = this])
    case (decide_fails e)
    with assms run_decide_fails[OF nr this, of numText] nr show ?thesis by simp
  next
    case (direct d)
    with assms run_direct[OF nr direct, of numText] show ?thesis by simp
  next
    case (summarize_fails d tc tr calls' e)
    with assms run_tool_summarize_fails[OF nr summarize_fails] nr show ?thesis by auto
  next
    case (tool d tc tr calls' f)
    with assms run_tool[OF nr tool] show ?thesis by simp
  qed
qed

lemma run_tool_message:
  assumes nr: "\<not> isRunning this"
    and dec: "decideCall env x this = Inr d"
    and tc: "resp_toolCall d = Some tc"
  shows "take (length (messages this) + 2) (messages (fst (snd (run numText env x this)))) =
           messages this @ [userMsg x (userTime env),
                            toolMsg (fst (executeTool numText this tc)) (toolTime env)]"
proof -
  obtain tr calls where ex: "executeTool numText this tc = (tr, calls)"
    by (cases "executeTool numText this tc")
  show ?thesis
  proof (cases "summarizeCall env x this tr")
    case (Inl e)
    from run_tool_summarize_fails[OF nr dec tc ex Inl] ex show ?thesis by simp
  next
    case (Inr f)
    from run_tool[OF nr dec tc ex Inr] ex show ?thesis by simp
  qed
qed

lemma run_calls:
  "snd (snd (run numText env x this)) =
     (if isRunning this then []
      else case decideCall env x this of
             Inl e \<Rightarrow> []
           | Inr d \<Rightarrow> (case resp_toolCall d of
                         None \<Rightarrow> []
                       | Some tc \<Rightarrow> snd (executeTool numText this tc)))"
proof (cases "isRunning this")
  case True
  then show ?thesis by (simp add: run_busy)
next
  case nr: False
  show ?thesis
  proof (cases rule: run_cases[where env = env and x = x and numText = numText and this = this])
    case (decide_fails e)
    with run_decide_fails[OF nr this, of numText] nr show ?thesis by simp
  next
    case (direct d)
    with run_direct[OF nr direct, of numText] nr show ?thesis by simp
  next
    case (summarize_fails d tc tr calls' e)
    with run_tool_summarize_fails[OF nr summarize_fails] nr show ?thesis by simp
  next
    case (tool d tc tr calls' f)
    with run_tool[OF nr tool] nr show ?thesis by simp
  qed
qed


lemma executeTool_toolName: "tr_toolName (fst (executeTool numText this tc)) = tc_toolName tc"
  by (auto simp: executeTool_def Let_def split: option.splits exec_outcome.splits)

text \<open>
  C4. Failures of a tool call become tool results and tool messages, not exceptions.
  When validation fails, \<open>executeTool\<close> returns a failure that carries the validator's
  reason (the first violation, by C3) and calls no tool body. When the body throws an
  \<^verbatim>\<open>Error\<close>, the failure carries its message, and \<^verbatim>\<open>Unknown error\<close> when the body throws
  a value that is not an \<^verbatim>\<open>Error\<close>. In \<open>run\<close>, a failed tool result is appended after
  the user message as a tool message with content \<^verbatim>\<open>Error: <reason>\<close> and without
  \<^verbatim>\<open>toolResult\<close>. Whatever \<open>run\<close> throws is the guard's error on a busy executor or
  what a call of the oracle threw, never a failure of the tool call.
\<close>

theorem tool_failures_folded:
  fixes numText :: "'n::ord \<Rightarrow> string"
  shows
  "(\<forall>tool. find (\<lambda>t. name t = tc_toolName tc) (tools (agent this)) = Some tool \<and>
        \<not> valid (validateParameters numText tool (tc_parameters tc)) \<longrightarrow>
        executeTool numText this tc =
          (\<lparr>tr_toolName = tc_toolName tc, success = False, result = None,
            error = verror (validateParameters numText tool (tc_parameters tc))\<rparr>, []) \<and>
        verror (validateParameters numText tool (tc_parameters tc)) \<noteq> None)
   \<and> (\<forall>tool msg. find (\<lambda>t. name t = tc_toolName tc) (tools (agent this)) = Some tool \<and>
        valid (validateParameters numText tool (tc_parameters tc)) \<and>
        execute tool (tc_parameters tc) = ThrewError msg \<longrightarrow>
        executeTool numText this tc =
          (\<lparr>tr_toolName = tc_toolName tc, success = False, result = None, error = Some msg\<rparr>,
           [(name tool, tc_parameters tc)]))
   \<and> (\<forall>tool. find (\<lambda>t. name t = tc_toolName tc) (tools (agent this)) = Some tool \<and>
        valid (validateParameters numText tool (tc_parameters tc)) \<and>
        execute tool (tc_parameters tc) = ThrewOther \<longrightarrow>
        executeTool numText this tc =
          (\<lparr>tr_toolName = tc_toolName tc, success = False, result = None,
            error = Some ''Unknown error''\<rparr>,
           [(name tool, tc_parameters tc)]))
   \<and> (\<forall>d. \<not> isRunning this \<and> decideCall env x this = Inr d \<and> resp_toolCall d = Some tc \<and>
        \<not> success (fst (executeTool numText this tc)) \<longrightarrow>
        (\<exists>reason. error (fst (executeTool numText this tc)) = Some reason \<and>
           take (length (messages this) + 2) (messages (fst (snd (run numText env x this)))) =
             messages this @
             [userMsg x (userTime env),
              \<lparr>role = ToolRole, content = ''Error: '' @ reason, timestamp = toolTime env,
               toolName = Some (tc_toolName tc), toolResult = None\<rparr>]))
   \<and> (\<forall>err. fst (run numText env x this) = Inl err \<longrightarrow>
        (isRunning this \<and> err = AlreadyRunning) \<or>
        (\<not> isRunning this \<and>
         (\<exists>e. err = OracleFailure e \<and>
            (decideCall env x this = Inl e \<or>
             (\<exists>d tc'. decideCall env x this = Inr d \<and> resp_toolCall d = Some tc' \<and>
                summarizeCall env x this (fst (executeTool numText this tc')) = Inl e)))))"
proof (intro conjI allI impI)
  fix tool
  assume h: "find (\<lambda>t. name t = tc_toolName tc) (tools (agent this)) = Some tool \<and>
        \<not> valid (validateParameters numText tool (tc_parameters tc))"
  then show "executeTool numText this tc =
          (\<lparr>tr_toolName = tc_toolName tc, success = False, result = None,
            error = verror (validateParameters numText tool (tc_parameters tc))\<rparr>, [])"
    by (intro executeTool_invalid) auto
  from h show "verror (validateParameters numText tool (tc_parameters tc)) \<noteq> None"
    using validateParameters_invalid_reason[of numText tool "tc_parameters tc"] by auto
next
  fix tool msg
  assume "find (\<lambda>t. name t = tc_toolName tc) (tools (agent this)) = Some tool \<and>
        valid (validateParameters numText tool (tc_parameters tc)) \<and>
        execute tool (tc_parameters tc) = ThrewError msg"
  then show "executeTool numText this tc =
          (\<lparr>tr_toolName = tc_toolName tc, success = False, result = None, error = Some msg\<rparr>,
           [(name tool, tc_parameters tc)])"
    using executeTool_valid[of tc this tool numText] by simp
next
  fix tool
  assume "find (\<lambda>t. name t = tc_toolName tc) (tools (agent this)) = Some tool \<and>
        valid (validateParameters numText tool (tc_parameters tc)) \<and>
        execute tool (tc_parameters tc) = ThrewOther"
  then show "executeTool numText this tc =
          (\<lparr>tr_toolName = tc_toolName tc, success = False, result = None,
            error = Some ''Unknown error''\<rparr>,
           [(name tool, tc_parameters tc)])"
    using executeTool_valid[of tc this tool numText] by simp
next
  fix d
  assume h: "\<not> isRunning this \<and> decideCall env x this = Inr d \<and> resp_toolCall d = Some tc \<and>
        \<not> success (fst (executeTool numText this tc))"
  obtain tr calls where ex: "executeTool numText this tc = (tr, calls)"
    by (cases "executeTool numText this tc")
  with h have ns: "\<not> success tr" by simp
  from executeTool_failure_has_error[OF ex ns] obtain reason where
    reason: "error tr = Some reason" by blast
  have nm: "tr_toolName tr = tc_toolName tc"
    using executeTool_toolName[of numText this tc] ex by simp
  have "take (length (messages this) + 2) (messages (fst (snd (run numText env x this)))) =
           messages this @ [userMsg x (userTime env), toolMsg tr (toolTime env)]"
    using run_tool_message[of this env x d tc numText] h ex by simp
  then have "take (length (messages this) + 2) (messages (fst (snd (run numText env x this)))) =
             messages this @
             [userMsg x (userTime env),
              \<lparr>role = ToolRole, content = ''Error: '' @ reason, timestamp = toolTime env,
               toolName = Some (tc_toolName tc), toolResult = None\<rparr>]"
    by (simp only: toolMsg_failure[OF ns reason] nm)
  with reason ex
  show "\<exists>reason. error (fst (executeTool numText this tc)) = Some reason \<and>
           take (length (messages this) + 2) (messages (fst (snd (run numText env x this)))) =
             messages this @
             [userMsg x (userTime env),
              \<lparr>role = ToolRole, content = ''Error: '' @ reason, timestamp = toolTime env,
               toolName = Some (tc_toolName tc), toolResult = None\<rparr>]"
    by (intro exI[of _ reason]) simp
next
  fix err
  assume "fst (run numText env x this) = Inl err"
  from run_error_origin[OF this]
  show "(isRunning this \<and> err = AlreadyRunning) \<or>
        (\<not> isRunning this \<and>
         (\<exists>e. err = OracleFailure e \<and>
            (decideCall env x this = Inl e \<or>
             (\<exists>d tc'. decideCall env x this = Inr d \<and> resp_toolCall d = Some tc' \<and>
                summarizeCall env x this (fst (executeTool numText this tc')) = Inl e))))" .
qed

text \<open>
  C5. One invocation of \<open>run\<close> calls at most one tool body. After a tool call, whatever
  the summarize outcome \<open>f\<close> holds, a tool call included, \<open>run\<close> returns the transcript
  with the user message, the one tool message and the reply of \<open>f\<close>, and the tool
  bodies called are those of the decide outcome's tool call alone: a tool call in \<open>f\<close>
  is not executed. The reply of \<open>f\<close> is one assistant message when \<open>f\<close> yields text
  (a text that is not empty, as the source tests it for truthiness), and no message
  otherwise.
\<close>

theorem run_single_tool_hop:
  fixes numText :: "'n::ord \<Rightarrow> string"
  shows
  "length (snd (snd (run numText env x this))) \<le> 1
   \<and> (\<forall>d tc tr calls f.
        \<not> isRunning this \<and> decideCall env x this = Inr d \<and> resp_toolCall d = Some tc \<and>
        executeTool numText this tc = (tr, calls) \<and> summarizeCall env x this tr = Inr f \<longrightarrow>
        run numText env x this =
          (Inr (messages this @ userMsg x (userTime env) # toolMsg tr (toolTime env) #
                  reply f (replyTime env)),
           this\<lparr>messages := messages this @ userMsg x (userTime env) #
                  toolMsg tr (toolTime env) # reply f (replyTime env),
                isRunning := False\<rparr>,
           calls) \<and>
        reply f (replyTime env) =
          (case resp_text f of
             None \<Rightarrow> []
           | Some txt \<Rightarrow>
               if txt = [] then []
               else [\<lparr>role = Assistant, content = txt, timestamp = replyTime env,
                      toolName = None, toolResult = None\<rparr>]))"
proof (intro conjI allI impI)
  show "length (snd (snd (run numText env x this))) \<le> 1"
    using executeTool_calls_le[of numText this]
    by (simp add: run_calls split: sum.splits option.splits)
next
  fix d tc tr calls f
  assume h: "\<not> isRunning this \<and> decideCall env x this = Inr d \<and> resp_toolCall d = Some tc \<and>
        executeTool numText this tc = (tr, calls) \<and> summarizeCall env x this tr = Inr f"
  then show "run numText env x this =
          (Inr (messages this @ userMsg x (userTime env) # toolMsg tr (toolTime env) #
                  reply f (replyTime env)),
           this\<lparr>messages := messages this @ userMsg x (userTime env) #
                  toolMsg tr (toolTime env) # reply f (replyTime env),
                isRunning := False\<rparr>,
           calls)"
    by (intro run_tool[where d = d and tc = tc]) auto
  show "reply f (replyTime env) =
          (case resp_text f of
             None \<Rightarrow> []
           | Some txt \<Rightarrow>
               if txt = [] then []
               else [\<lparr>role = Assistant, content = txt, timestamp = replyTime env,
                      toolName = None, toolResult = None\<rparr>])"
    by (simp add: reply_def assistantMsg_def split: option.splits)
qed

text \<open>
  The mock of the source is one such oracle: it never throws, it answers with exactly
  one of a text and a tool call, and after a tool message it answers with a text. With
  it \<open>run\<close> on an executor that is not busy always returns the transcript.
\<close>

lemma mockEnv_llm: "llm (mockEnv tl t1 t2 t3) p ms ts = Inr (callLLM tl p ms ts)"
  by (simp add: mockEnv_def mockOracle_def)

lemma callLLM_after_tool:
  "ms \<noteq> [] \<Longrightarrow> role (last ms) \<noteq> User \<Longrightarrow>
   resp_toolCall (callLLM tl p ms ts) = None \<and>
   (\<exists>txt. resp_text (callLLM tl p ms ts) = Some txt \<and> txt \<noteq> [])"
  by (simp add: callLLM_def Let_def)

lemma callLLM_well_formed:
  "(resp_toolCall (callLLM tl p ms ts) = None) \<noteq> (resp_text (callLLM tl p ms ts) = None)"
  by (simp add: callLLM_def Let_def split: option.splits)

lemma mock_run_returns:
  assumes nr: "\<not> isRunning this"
  shows "\<exists>ms. fst (run numText (mockEnv tl t1 t2 t3) x this) = Inr ms"
proof (cases rule: run_cases[where env = "mockEnv tl t1 t2 t3" and x = x and numText = numText
      and this = this])
  case (decide_fails e)
  then show ?thesis by (simp add: decideCall_def mockEnv_llm)
next
  case (direct d)
  with run_direct[OF nr direct, of numText] show ?thesis by simp
next
  case (summarize_fails d tc tr calls' e)
  then show ?thesis by (simp add: summarizeCall_def mockEnv_llm)
next
  case (tool d tc tr calls' f)
  with run_tool[OF nr tool] show ?thesis by simp
qed

section \<open>The properties at concrete inputs\<close>

lemma scripted_decide: "decideCall (scriptedEnv D S) x this = D"
  by (simp add: decideCall_def scriptedEnv_def scriptedOracle_def userMsg_def)

lemma scripted_summarize: "summarizeCall (scriptedEnv D S) x this tr = S"
  by (simp add: summarizeCall_def scriptedEnv_def scriptedOracle_def toolMsg_def)

lemma scripted_times:
  "userTime (scriptedEnv D S) = 1" "toolTime (scriptedEnv D S) = 2" "replyTime (scriptedEnv D S) = 3"
  by (simp_all add: scriptedEnv_def)

lemma fresh_fields:
  "isRunning fresh = False" "agent fresh = exampleAgent" "messages fresh = [systemMsg 0]"
  by (simp_all add: fresh_def newAgentExecutor_def initializeMessages_def systemMsg_def exampleAgent_def)

lemma example_tools: "tools exampleAgent = [echoTool, brokenTool, oddTool]"
  by (simp add: exampleAgent_def)

lemma tool_names: "name echoTool = ''echo''" "name brokenTool = ''divide''" "name oddTool = ''odd''"
  by (simp_all add: echoTool_def brokenTool_def oddTool_def)

lemma find_echo: "find (\<lambda>t. name t = ''echo'') (tools (agent fresh)) = Some echoTool"
  by (simp add: fresh_fields example_tools tool_names)

lemma find_divide: "find (\<lambda>t. name t = ''divide'') (tools (agent fresh)) = Some brokenTool"
  by (simp add: fresh_fields example_tools tool_names)

lemma find_odd: "find (\<lambda>t. name t = ''odd'') (tools (agent fresh)) = Some oddTool"
  by (simp add: fresh_fields example_tools tool_names)

lemma valid_hi: "valid (validateParameters intText echoTool hiBag)"
  by (simp add: validateParameters_def echo_entries read_text read_count hiBag_def textParam_def
      countParam_def)

lemma execute_echo_hi:
  "executeTool intText fresh \<lparr>tc_toolName = ''echo'', tc_parameters = hiBag\<rparr> =
     (\<lparr>tr_toolName = ''echo'', success = True, result = Some ''hi'', error = None\<rparr>,
      [(''echo'', hiBag)])"
  using executeTool_valid[of "\<lparr>tc_toolName = ''echo'', tc_parameters = hiBag\<rparr>" fresh echoTool intText]
    find_echo valid_hi
  by (simp add: tool_names) (simp add: echoTool_def hiBag_def)

theorem run_malformed_outcome_witness:
  "\<not> isRunning fresh \<and> decideCall silentEnv ''hello'' fresh = Inr silentResponse \<and>
   resp_toolCall silentResponse = None \<and> resp_text silentResponse = None \<and>
   run intText silentEnv ''hello'' fresh =
     (Inr (messages fresh @ [userMsg ''hello'' (userTime silentEnv)]),
      fresh\<lparr>messages := messages fresh @ [userMsg ''hello'' (userTime silentEnv)],
            isRunning := False\<rparr>, [])"
proof -
  have h1: "\<not> isRunning fresh" by (simp add: fresh_fields)
  have h2: "decideCall silentEnv ''hello'' fresh = Inr silentResponse"
    by (simp add: silentEnv_def scripted_decide)
  have h3: "resp_toolCall silentResponse = None" by (simp add: silentResponse_def)
  have h4: "resp_text silentResponse = None" by (simp add: silentResponse_def)
  from h1 h2 h3 h4 run_malformed_outcome[OF h1 h2 h3 h4, of intText] show ?thesis
    by (intro conjI)
qed

lemma echo_call: "executeTool intText fresh \<lparr>tc_toolName = ''echo'', tc_parameters = hiBag\<rparr> =
    (echoResult, [(''echo'', hiBag)])"
  by (simp add: execute_echo_hi echoResult_def)

lemma echo_decide:
  "decideCall echoEnv x fresh = Inr (toolCallResponse ''echo'' hiBag)"
  by (simp add: echoEnv_def scripted_decide)

lemma echo_toolCall:
  "resp_toolCall (toolCallResponse n bag) = Some \<lparr>tc_toolName = n, tc_parameters = bag\<rparr>"
  by (simp add: toolCallResponse_def)

lemma echo_run:
  "run intText echoEnv ''say hi'' fresh =
     (Inr echoTranscript, fresh\<lparr>messages := echoTranscript, isRunning := False\<rparr>,
      [(''echo'', hiBag)])"
proof -
  have nr: "\<not> isRunning fresh" by (simp add: fresh_fields)
  have sm: "summarizeCall echoEnv ''say hi'' fresh echoResult = Inr (textResponse ''done'')"
    by (simp add: echoEnv_def scripted_summarize)
  have ms: "messages fresh @ userMsg ''say hi'' (userTime echoEnv) #
      toolMsg echoResult (toolTime echoEnv) # reply (textResponse ''done'') (replyTime echoEnv) =
      echoTranscript"
    by (simp add: fresh_fields echoEnv_def scripted_times userMsg_def toolMsg_def reply_def
        textResponse_def assistantMsg_def echoResult_def echoTranscript_def)
  from run_tool[OF nr echo_decide echo_toolCall echo_call sm] show ?thesis
    by (simp only: ms)
qed

theorem run_appends_in_order_witness:
  "run intText echoEnv ''say hi'' fresh =
     (Inr echoTranscript, fresh\<lparr>messages := echoTranscript, isRunning := False\<rparr>,
      [(''echo'', hiBag)]) \<and>
   echoTranscript = messages fresh @ [userMsg ''say hi'' 1] @ [toolMsg echoResult 2] @
     reply (textResponse ''done'') 3 \<and>
   reply (textResponse ''done'') 3 =
     [\<lparr>role = Assistant, content = ''done'', timestamp = 3, toolName = None, toolResult = None\<rparr>] \<and>
   afterEvents intText \<lparr>exec = fresh, inflight = None\<rparr>
       [Invoke echoEnv ''say hi'', Resume, Resume, Resume] =
     \<lparr>exec = fresh\<lparr>messages := echoTranscript, isRunning := False\<rparr>, inflight = None\<rparr>"
proof -
  note T = run_appends_in_order[OF echo_run]
  from T obtain d where d: "decideCall echoEnv ''say hi'' fresh = Inr d"
    and c: "(case resp_toolCall d of
          None \<Rightarrow>
            messages (fresh\<lparr>messages := echoTranscript, isRunning := False\<rparr>) =
              messages fresh @ [userMsg ''say hi'' (userTime echoEnv)] @ reply d (replyTime echoEnv)
        | Some tc \<Rightarrow>
            (\<exists>f. summarizeCall echoEnv ''say hi'' fresh (fst (executeTool intText fresh tc)) = Inr f \<and>
               messages (fresh\<lparr>messages := echoTranscript, isRunning := False\<rparr>) =
                 messages fresh @ [userMsg ''say hi'' (userTime echoEnv)] @
                 [toolMsg (fst (executeTool intText fresh tc)) (toolTime echoEnv)] @
                 reply f (replyTime echoEnv)))"
    by blast
  from d have d': "d = toolCallResponse ''echo'' hiBag"
    by (simp add: echo_decide)
  from c have "\<exists>f. summarizeCall echoEnv ''say hi'' fresh echoResult = Inr f \<and>
      echoTranscript = messages fresh @ [userMsg ''say hi'' 1] @ [toolMsg echoResult 2] @ reply f 3"
    by (simp add: d' echo_toolCall echo_call echoEnv_def scripted_times)
  then have c2: "echoTranscript = messages fresh @ [userMsg ''say hi'' 1] @ [toolMsg echoResult 2] @
     reply (textResponse ''done'') 3"
    by (simp add: echoEnv_def scripted_summarize)
  from T have "reply (textResponse ''done'') (replyTime echoEnv) =
       (case resp_text (textResponse ''done'') of
          None \<Rightarrow> []
        | Some txt \<Rightarrow>
            if txt = [] then []
            else [\<lparr>role = Assistant, content = txt, timestamp = replyTime echoEnv,
                   toolName = None, toolResult = None\<rparr>])"
    by blast
  then have c3: "reply (textResponse ''done'') 3 =
     [\<lparr>role = Assistant, content = ''done'', timestamp = 3, toolName = None, toolResult = None\<rparr>]"
    by (simp add: echoEnv_def scripted_times textResponse_def)
  from T have "afterEvents intText \<lparr>exec = fresh, inflight = None\<rparr>
       (Invoke echoEnv ''say hi'' # replicate (3 + 0) Resume) =
     \<lparr>exec = fresh\<lparr>messages := echoTranscript, isRunning := False\<rparr>, inflight = None\<rparr>"
    by blast
  then have c4: "afterEvents intText \<lparr>exec = fresh, inflight = None\<rparr>
       [Invoke echoEnv ''say hi'', Resume, Resume, Resume] =
     \<lparr>exec = fresh\<lparr>messages := echoTranscript, isRunning := False\<rparr>, inflight = None\<rparr>"
    by (simp add: numeral_3_eq_3)
  from echo_run c2 c3 c4 show ?thesis by (intro conjI)
qed

theorem run_single_tool_hop_witness:
  "length (snd (snd (run intText chainEnv ''say hi'' fresh))) \<le> 1 \<and>
   resp_toolCall (toolCallResponse ''divide'' Map.empty) =
     Some \<lparr>tc_toolName = ''divide'', tc_parameters = Map.empty\<rparr> \<and>
   run intText chainEnv ''say hi'' fresh =
     (Inr (messages fresh @ userMsg ''say hi'' (userTime chainEnv) #
             toolMsg echoResult (toolTime chainEnv) #
             reply (toolCallResponse ''divide'' Map.empty) (replyTime chainEnv)),
      fresh\<lparr>messages := messages fresh @ userMsg ''say hi'' (userTime chainEnv) #
             toolMsg echoResult (toolTime chainEnv) #
             reply (toolCallResponse ''divide'' Map.empty) (replyTime chainEnv),
            isRunning := False\<rparr>,
      [(''echo'', hiBag)]) \<and>
   reply (toolCallResponse ''divide'' Map.empty) (replyTime chainEnv) = []"
proof -
  note T = run_single_tool_hop[of intText chainEnv "''say hi''" fresh]
  have h: "\<not> isRunning fresh \<and>
        decideCall chainEnv ''say hi'' fresh = Inr (toolCallResponse ''echo'' hiBag) \<and>
        resp_toolCall (toolCallResponse ''echo'' hiBag) =
          Some \<lparr>tc_toolName = ''echo'', tc_parameters = hiBag\<rparr> \<and>
        executeTool intText fresh \<lparr>tc_toolName = ''echo'', tc_parameters = hiBag\<rparr> =
          (echoResult, [(''echo'', hiBag)]) \<and>
        summarizeCall chainEnv ''say hi'' fresh echoResult =
          Inr (toolCallResponse ''divide'' Map.empty)"
    by (simp add: fresh_fields chainEnv_def scripted_decide scripted_summarize echo_toolCall
        echo_call)
  note C = T[THEN conjunct2, rule_format, OF h]
  have c1: "length (snd (snd (run intText chainEnv ''say hi'' fresh))) \<le> 1"
    using T by (rule conjunct1)
  have c2: "resp_toolCall (toolCallResponse ''divide'' Map.empty) =
     Some \<lparr>tc_toolName = ''divide'', tc_parameters = Map.empty\<rparr>"
    by (rule echo_toolCall)
  have c4: "reply (toolCallResponse ''divide'' Map.empty) (replyTime chainEnv) = []"
    using C[THEN conjunct2] by (simp add: toolCallResponse_def)
  from c1 c2 C[THEN conjunct1] c4 show ?thesis by (intro conjI)
qed

theorem run_unknown_tool_witness:
  "\<not> isRunning fresh \<and>
   decideCall unknownEnv ''use it'' fresh = Inr (toolCallResponse ''doesNotExist'' Map.empty) \<and>
   resp_toolCall (toolCallResponse ''doesNotExist'' Map.empty) =
     Some \<lparr>tc_toolName = ''doesNotExist'', tc_parameters = Map.empty\<rparr> \<and>
   map name (tools (agent fresh)) = [''echo'', ''divide'', ''odd''] \<and>
   run intText unknownEnv ''use it'' fresh =
     (Inr [systemMsg 0, userMsg ''use it'' 1, notFoundMsg, assistantMsg ''sorry'' 3],
      fresh\<lparr>messages := [systemMsg 0, userMsg ''use it'' 1, notFoundMsg, assistantMsg ''sorry'' 3],
            isRunning := False\<rparr>, [])"
proof -
  have h1: "\<not> isRunning fresh" by (simp add: fresh_fields)
  have h2: "decideCall unknownEnv ''use it'' fresh =
      Inr (toolCallResponse ''doesNotExist'' Map.empty)"
    by (simp add: unknownEnv_def scripted_decide)
  have h3: "resp_toolCall (toolCallResponse ''doesNotExist'' Map.empty) =
     Some \<lparr>tc_toolName = ''doesNotExist'', tc_parameters = Map.empty\<rparr>"
    by (rule echo_toolCall)
  have h4: "map name (tools (agent fresh)) = [''echo'', ''divide'', ''odd'']"
    by (simp add: fresh_fields example_tools tool_names)
  have h4': "\<forall>t \<in> set (tools (agent fresh)).
      name t \<noteq> tc_toolName \<lparr>tc_toolName = ''doesNotExist'', tc_parameters = Map.empty\<rparr>"
    by (simp add: fresh_fields example_tools tool_names)
  have c: "run intText unknownEnv ''use it'' fresh =
     (Inr [systemMsg 0, userMsg ''use it'' 1, notFoundMsg, assistantMsg ''sorry'' 3],
      fresh\<lparr>messages := [systemMsg 0, userMsg ''use it'' 1, notFoundMsg, assistantMsg ''sorry'' 3],
            isRunning := False\<rparr>, [])"
    using run_unknown_tool[OF h1 h2 h3 h4', of intText]
    by (simp add: unknownEnv_def scriptedEnv_def scriptedOracle_def fresh_fields notFoundMsg_def
        reply_def textResponse_def Let_def)
  from h1 h2 h3 h4 c show ?thesis by (intro conjI)
qed

lemma callOf_fields: "tc_toolName (callOf n) = n" "tc_parameters (callOf n) = emptyBag"
  by (simp_all add: callOf_def)

lemma invalid_empty: "validateParameters intText echoTool emptyBag =
    \<lparr>valid = False, verror = Some ''Missing required parameter: text''\<rparr>"
  by (simp add: validateParameters_def echo_entries read_text emptyBag_def textParam_def)

theorem tool_failures_folded_witness:
  "executeTool intText fresh (callOf ''echo'') =
     (\<lparr>tr_toolName = ''echo'', success = False, result = None,
       error = Some ''Missing required parameter: text''\<rparr>, []) \<and>
   executeTool intText fresh (callOf ''divide'') =
     (\<lparr>tr_toolName = ''divide'', success = False, result = None,
       error = Some ''Cannot divide by zero''\<rparr>, [(''divide'', emptyBag)]) \<and>
   executeTool intText fresh (callOf ''odd'') =
     (\<lparr>tr_toolName = ''odd'', success = False, result = None,
       error = Some ''Unknown error''\<rparr>, [(''odd'', emptyBag)]) \<and>
   take (length (messages fresh) + 2) (messages (fst (snd (run intText invalidEnv ''go'' fresh)))) =
     messages fresh @
     [userMsg ''go'' (userTime invalidEnv),
      \<lparr>role = ToolRole, content = ''Error: '' @ ''Missing required parameter: text'',
       timestamp = toolTime invalidEnv, toolName = Some ''echo'', toolResult = None\<rparr>] \<and>
   fst (run intText brokenEnv ''go'' fresh) = Inl (OracleFailure ''network down'')"
proof -
  note T = tool_failures_folded[where numText = intText and this = fresh]
  have h1: "find (\<lambda>t. name t = tc_toolName (callOf ''echo'')) (tools (agent fresh)) = Some echoTool \<and>
      \<not> valid (validateParameters intText echoTool (tc_parameters (callOf ''echo'')))"
    by (simp add: callOf_fields find_echo invalid_empty)
  have c1: "executeTool intText fresh (callOf ''echo'') =
     (\<lparr>tr_toolName = ''echo'', success = False, result = None,
       error = Some ''Missing required parameter: text''\<rparr>, [])"
    using T[of "callOf ''echo''", THEN conjunct1, rule_format, OF h1]
    by (simp add: callOf_fields invalid_empty)
  have h2: "find (\<lambda>t. name t = tc_toolName (callOf ''divide'')) (tools (agent fresh)) =
        Some brokenTool \<and>
      valid (validateParameters intText brokenTool (tc_parameters (callOf ''divide''))) \<and>
      execute brokenTool (tc_parameters (callOf ''divide'')) = ThrewError ''Cannot divide by zero''"
    by (simp add: callOf_fields find_divide) (simp add: validateParameters_def objectEntries_def brokenTool_def)
  have c2: "executeTool intText fresh (callOf ''divide'') =
     (\<lparr>tr_toolName = ''divide'', success = False, result = None,
       error = Some ''Cannot divide by zero''\<rparr>, [(''divide'', emptyBag)])"
    using T[of "callOf ''divide''", THEN conjunct2, THEN conjunct1, rule_format, OF h2]
    by (simp add: callOf_fields tool_names)
  have h3: "find (\<lambda>t. name t = tc_toolName (callOf ''odd'')) (tools (agent fresh)) = Some oddTool \<and>
      valid (validateParameters intText oddTool (tc_parameters (callOf ''odd''))) \<and>
      execute oddTool (tc_parameters (callOf ''odd'')) = ThrewOther"
    by (simp add: callOf_fields find_odd) (simp add: validateParameters_def objectEntries_def oddTool_def)
  have c3: "executeTool intText fresh (callOf ''odd'') =
     (\<lparr>tr_toolName = ''odd'', success = False, result = None,
       error = Some ''Unknown error''\<rparr>, [(''odd'', emptyBag)])"
    using T[of "callOf ''odd''", THEN conjunct2, THEN conjunct2, THEN conjunct1, rule_format, OF h3]
    by (simp add: callOf_fields tool_names)
  have h4: "\<not> isRunning fresh \<and>
      decideCall invalidEnv ''go'' fresh = Inr (toolCallResponse ''echo'' Map.empty) \<and>
      resp_toolCall (toolCallResponse ''echo'' Map.empty) = Some (callOf ''echo'') \<and>
      \<not> success (fst (executeTool intText fresh (callOf ''echo'')))"
    by (simp add: fresh_fields invalidEnv_def scripted_decide echo_toolCall callOf_def
        emptyBag_def c1[unfolded callOf_def emptyBag_def])
  have c4: "take (length (messages fresh) + 2)
        (messages (fst (snd (run intText invalidEnv ''go'' fresh)))) =
     messages fresh @
     [userMsg ''go'' (userTime invalidEnv),
      \<lparr>role = ToolRole, content = ''Error: '' @ ''Missing required parameter: text'',
       timestamp = toolTime invalidEnv, toolName = Some ''echo'', toolResult = None\<rparr>]"
    using T[of "callOf ''echo''" invalidEnv "''go''", THEN conjunct2, THEN conjunct2,
            THEN conjunct2, THEN conjunct1, rule_format, OF h4]
    by (simp add: c1 callOf_fields)
  have nr: "\<not> isRunning fresh" by (simp add: fresh_fields)
  have r5: "fst (run intText brokenEnv ''go'' fresh) = Inl (OracleFailure ''network down'')"
    using run_tool_summarize_fails[OF nr, of brokenEnv "''go''"
        "toolCallResponse ''divide'' Map.empty" "callOf ''divide''" intText _ _ "''network down''"]
      c2
    by (simp add: brokenEnv_def scripted_decide scripted_summarize echo_toolCall callOf_def
        emptyBag_def)
  have c5: "fst (run intText brokenEnv ''go'' fresh) = Inl (OracleFailure ''network down'')"
    using T[of _ brokenEnv "''go''", THEN conjunct2, THEN conjunct2, THEN conjunct2,
            THEN conjunct2, rule_format, OF r5] r5
    by simp
  from c1 c2 c3 c4 c5 show ?thesis by (intro conjI)
qed

section \<open>Single flight, and reset\<close>

lemma run_agent: "agent (fst (snd (run numText env x this))) = agent this"
proof (cases "isRunning this")
  case True
  then show ?thesis by (simp add: run_busy)
next
  case nr: False
  show ?thesis
  proof (cases rule: run_cases[where env = env and x = x and numText = numText and this = this])
    case (decide_fails e)
    with run_decide_fails[OF nr this, of numText] show ?thesis by simp
  next
    case (direct d)
    with run_direct[OF nr direct, of numText] show ?thesis by simp
  next
    case (summarize_fails d tc tr calls' e)
    with run_tool_summarize_fails[OF nr summarize_fails] show ?thesis by simp
  next
    case (tool d tc tr calls' f)
    with run_tool[OF nr tool] show ?thesis by simp
  qed
qed

lemma run_clears_flag:
  assumes nr: "\<not> isRunning this"
  shows "\<not> isRunning (fst (snd (run numText env x this)))"
proof (cases rule: run_cases[where env = env and x = x and numText = numText and this = this])
  case (decide_fails e)
  with run_decide_fails[OF nr this, of numText] show ?thesis by simp
next
  case (direct d)
  with run_direct[OF nr direct, of numText] show ?thesis by simp
next
  case (summarize_fails d tc tr calls' e)
  with run_tool_summarize_fails[OF nr summarize_fails] show ?thesis by simp
next
  case (tool d tc tr calls' f)
  with run_tool[OF nr tool] show ?thesis by simp
qed

lemma run_begin_busy: "isRunning this \<Longrightarrow> run_begin env x this = Inl AlreadyRunning"
  by (simp add: run_begin_def)

lemma run_begin_idle:
  "\<not> isRunning this \<Longrightarrow>
   run_begin env x this =
     Inr (this\<lparr>messages := messages this @ [userMsg x (userTime env)], isRunning := True\<rparr>,
          AwaitDecide (decideCall env x this))"
  by (simp add: run_begin_def push_def decideCall_def Let_def)

lemma run_resume_settled:
  "run_resume numText env p this = (this', Settled r, calls) \<Longrightarrow> \<not> isRunning this'"
  by (cases "(numText, env, p, this)" rule: run_resume.cases)
     (auto simp: Let_def pushAll_def split: option.splits prod.splits)

lemma run_resume_suspended:
  "run_resume numText env p this = (this', Suspended p', calls) \<Longrightarrow>
   isRunning this' = isRunning this \<and> agent this' = agent this"
  by (cases "(numText, env, p, this)" rule: run_resume.cases)
     (auto simp: Let_def push_def split: option.splits prod.splits)

lemma reset_fields:
  "isRunning (reset now this) = isRunning this" "agent (reset now this) = agent this"
  "messages (reset now this) =
     [\<lparr>role = System, content = prompt (agent this), timestamp = now,
       toolName = None, toolResult = None\<rparr>]"
  by (simp_all add: reset_def initializeMessages_def)

lemma step_flagMatches: "flagMatches s \<Longrightarrow> flagMatches (step numText s ev)"
proof (cases ev)
  case (Invoke env x)
  assume inv: "flagMatches s"
  show ?thesis
  proof (cases "isRunning (exec s)")
    case True
    with inv Invoke show ?thesis by (simp add: run_begin_busy)
  next
    case False
    with Invoke show ?thesis by (simp add: run_begin_idle flagMatches_def)
  qed
next
  case Resume
  assume inv: "flagMatches s"
  show ?thesis
  proof (cases "inflight s")
    case None
    with inv Resume show ?thesis by simp
  next
    case (Some a)
    obtain env p where a: "a = (env, p)" by (cases a)
    obtain this' pr calls where rr: "run_resume numText env p (exec s) = (this', pr, calls)"
      by (cases "run_resume numText env p (exec s)")
    show ?thesis
    proof (cases pr)
      case (Suspended p')
      with rr run_resume_suspended[of numText env p "exec s" this' p' calls] inv Some a Resume
      show ?thesis by (simp add: flagMatches_def)
    next
      case (Settled r)
      with rr run_resume_settled[of numText env p "exec s" this' r calls] Some a Resume
      show ?thesis by (simp add: flagMatches_def)
    qed
  qed
next
  case (Reset now)
  assume "flagMatches s"
  with Reset show ?thesis by (simp add: flagMatches_def reset_fields)
qed

lemma afterEvents_flagMatches:
  "flagMatches s \<Longrightarrow> flagMatches (afterEvents numText s events)"
  unfolding afterEvents_def
  by (induction events arbitrary: s) (simp_all add: step_flagMatches)

lemma newSession_flagMatches: "flagMatches (newSession ag t0)"
  by (simp add: flagMatches_def newSession_def newAgentExecutor_def initializeMessages_def)

lemma step_invoke_busy:
  "isRunning (exec s) \<Longrightarrow> step numText s (Invoke env x) = s"
  by (simp add: run_begin_busy)

lemma run_as_steps:
  assumes nr: "\<not> isRunning this"
  shows "\<exists>s p. run_begin env x this = Inr (s, p) \<and>
           drive numText env 3 s p [] = Some (run numText env x this)"
proof -
  let ?s = "this\<lparr>messages := messages this @ [userMsg x (userTime env)], isRunning := True\<rparr>"
  have ag: "agent ?s = agent this" by simp
  have three: "(3::nat) = Suc (Suc (Suc 0))" by simp
  have "drive numText env 3 ?s (AwaitDecide (decideCall env x this)) [] =
          Some (run numText env x this)"
  proof (cases rule: run_cases[where env = env and x = x and numText = numText and this = this])
    case (decide_fails e)
    with run_decide_fails[OF nr this, of numText] show ?thesis
      by (simp add: three)
  next
    case (direct d)
    with run_direct[OF nr direct, of numText] show ?thesis
      by (simp add: three pushAll_def Let_def)
  next
    case (summarize_fails d tc tr calls' e)
    with run_tool_summarize_fails[OF nr summarize_fails] executeTool_agent[OF ag, of numText tc]
    show ?thesis
      by (simp add: three push_def summarizeCall_def Let_def)
  next
    case (tool d tc tr calls' f)
    with run_tool[OF nr tool] executeTool_agent[OF ag, of numText tc]
    show ?thesis
      by (simp add: three push_def pushAll_def summarizeCall_def Let_def)
  qed
  with run_begin_idle[OF nr, of env x] show ?thesis by blast
qed

text \<open>
  C1. On a busy executor \<open>run\<close> fails with \<open>AlreadyRunning\<close> and changes nothing, the
  transcript included. On an executor that is not busy, \<open>run\<close> leaves the flag false
  however it ends: with the transcript (a failed tool call included, which is a
  message) or with the error of an oracle call; and whenever a resumed invocation
  settles, the flag is false. Between the call of \<open>run\<close> and its settling the flag is
  true: after any sequence of calls of \<open>run\<close>, resumptions and calls of \<open>reset\<close> on
  a new executor, the flag is set exactly when an invocation is suspended, so a call of
  \<open>run\<close> made while another has not completed is rejected with \<open>AlreadyRunning\<close>
  and leaves the executor and the suspended invocation as they were.
\<close>

theorem run_single_flight:
  fixes numText :: "'n::ord \<Rightarrow> string"
  shows
  "(isRunning this \<longrightarrow>
      run numText env x this = (Inl AlreadyRunning, this, []) \<and>
      run_begin env x this = Inl AlreadyRunning)
   \<and> (\<not> isRunning this \<longrightarrow> \<not> isRunning (fst (snd (run numText env x this))))
   \<and> (\<forall>this' r calls.
        run_resume numText env p this = (this', Settled r, calls) \<longrightarrow> \<not> isRunning this')
   \<and> (isRunning (exec (afterEvents numText (newSession ag t0) events)) \<longleftrightarrow>
        inflight (afterEvents numText (newSession ag t0) events) \<noteq> None)
   \<and> (inflight (afterEvents numText (newSession ag t0) events) \<noteq> None \<longrightarrow>
        run_begin env x (exec (afterEvents numText (newSession ag t0) events)) =
          Inl AlreadyRunning \<and>
        step numText (afterEvents numText (newSession ag t0) events) (Invoke env x) =
          afterEvents numText (newSession ag t0) events)"
proof -
  let ?s = "afterEvents numText (newSession ag t0) events"
  have inv: "isRunning (exec ?s) \<longleftrightarrow> inflight ?s \<noteq> None"
    using afterEvents_flagMatches[OF newSession_flagMatches, of numText ag t0 events]
    by (simp add: flagMatches_def)
  have a: "isRunning this \<longrightarrow>
      run numText env x this = (Inl AlreadyRunning, this, []) \<and>
      run_begin env x this = Inl AlreadyRunning"
    by (simp add: run_busy run_begin_busy)
  have b: "\<not> isRunning this \<longrightarrow> \<not> isRunning (fst (snd (run numText env x this)))"
    using run_clears_flag[of this numText env x] by blast
  have c: "\<forall>this' r calls.
        run_resume numText env p this = (this', Settled r, calls) \<longrightarrow> \<not> isRunning this'"
    using run_resume_settled[of numText env p this] by blast
  have d: "inflight ?s \<noteq> None \<longrightarrow>
        run_begin env x (exec ?s) = Inl AlreadyRunning \<and> step numText ?s (Invoke env x) = ?s"
    using inv run_begin_busy[of "exec ?s" env x] step_invoke_busy[of ?s numText env x] by blast
  from a b c inv d show ?thesis by (intro conjI)
qed

lemma runAll_idle:
  "\<not> isRunning this \<Longrightarrow>
   \<not> isRunning (runAll numText this turns) \<and> agent (runAll numText this turns) = agent this"
  unfolding runAll_def
proof (induction turns arbitrary: this)
  case Nil
  then show ?case by simp
next
  case (Cons t turns)
  obtain env x where t: "t = (env, x)" by (cases t)
  from Cons.prems have "\<not> isRunning (fst (snd (run numText env x this)))"
    by (rule run_clears_flag)
  from Cons.IH[OF this] show ?case
    by (simp add: t run_agent)
qed

text \<open>
  C9. After any sequence of completed invocations of \<open>run\<close> on a new executor,
  whatever they returned or threw, \<open>reset\<close> gives the executor that the constructor
  gives for the same agent: the flag is false and the transcript has exactly one entry,
  the system message whose content is the agent's prompt (with the time of the reset as
  its timestamp).
\<close>

theorem reset_restores_initial:
  fixes numText :: "'n::ord \<Rightarrow> string"
  shows
  "reset now (runAll numText (newAgentExecutor ag t0) turns) = newAgentExecutor ag now \<and>
   messages (reset now (runAll numText (newAgentExecutor ag t0) turns)) =
     [\<lparr>role = System, content = prompt ag, timestamp = now, toolName = None, toolResult = None\<rparr>] \<and>
   length (messages (reset now (runAll numText (newAgentExecutor ag t0) turns))) = 1"
proof -
  let ?s = "runAll numText (newAgentExecutor ag t0) turns"
  have n0: "\<not> isRunning (newAgentExecutor ag t0)" "agent (newAgentExecutor ag t0) = ag"
    by (simp_all add: newAgentExecutor_def initializeMessages_def)
  from runAll_idle[OF n0(1), of numText turns] n0(2)
  have s: "\<not> isRunning ?s" "agent ?s = ag" by simp_all
  have "reset now ?s = newAgentExecutor ag now"
    using s by (simp add: reset_def newAgentExecutor_def initializeMessages_def)
  then show ?thesis
    by (simp add: newAgentExecutor_def initializeMessages_def)
qed

text \<open>
  C7, as the code has it. \<open>reset\<close> has no guard: whether the flag is set or not, it
  replaces the transcript by the one system message built from the agent's prompt,
  changes neither the flag nor the agent, and cannot fail. An invocation of \<open>run\<close>
  that is suspended at that moment stays suspended and goes on with the new
  transcript. (The reset button of the user interface is disabled while a run is in
  progress; the executor itself does not refuse.)
\<close>

theorem reset_unconditional:
  fixes numText :: "'n::ord \<Rightarrow> string"
  shows
  "reset now this =
     this\<lparr>messages := [\<lparr>role = System, content = prompt (agent this), timestamp = now,
                          toolName = None, toolResult = None\<rparr>]\<rparr> \<and>
   isRunning (reset now this) = isRunning this \<and>
   agent (reset now this) = agent this \<and>
   exec (step numText s (Reset now)) = reset now (exec s) \<and>
   inflight (step numText s (Reset now)) = inflight s"
  by (simp add: reset_def initializeMessages_def)

lemma newSession_example: "newSession exampleAgent 0 = \<lparr>exec = fresh, inflight = None\<rparr>"
  by (simp add: newSession_def fresh_def)

lemma direct_decide: "decideCall directEnv x this = Inr (textResponse ''Hello!'')"
  by (simp add: directEnv_def scripted_decide)

lemma midRun_eq:
  "midRun = \<lparr>exec = fresh\<lparr>messages := [systemMsg 0, userMsg ''hi'' 1], isRunning := True\<rparr>,
             inflight = Some (directEnv, AwaitDecide (Inr (textResponse ''Hello!'')))\<rparr>"
proof -
  have nr: "\<not> isRunning fresh" by (simp add: fresh_fields)
  show ?thesis
    by (simp add: midRun_def afterEvents_def newSession_example run_begin_idle[OF nr]
        direct_decide fresh_fields) (simp add: directEnv_def scripted_times)
qed

lemma midRun_fields:
  "isRunning (exec midRun)" "inflight midRun \<noteq> None"
  "messages (exec midRun) = [systemMsg 0, userMsg ''hi'' 1]"
  by (simp_all add: midRun_eq)

theorem run_single_flight_witness:
  "isRunning (exec midRun) \<and>
   run intText echoEnv ''again'' (exec midRun) = (Inl AlreadyRunning, exec midRun, []) \<and>
   \<not> isRunning fresh \<and>
   \<not> isRunning (fst (snd (run intText brokenEnv ''go'' fresh))) \<and>
   inflight midRun \<noteq> None \<and>
   step intText midRun (Invoke echoEnv ''again'') = midRun"
proof -
  note A = run_single_flight[where numText = intText and this = "exec midRun" and env = echoEnv
      and x = "''again''" and ag = exampleAgent and ?t0.0 = 0
      and events = "[Invoke directEnv ''hi'']"]
  note B = run_single_flight[where numText = intText and this = fresh and env = brokenEnv
      and x = "''go''"]
  have r: "isRunning (exec midRun)" by (rule midRun_fields)
  have c1: "run intText echoEnv ''again'' (exec midRun) = (Inl AlreadyRunning, exec midRun, [])"
    using A[THEN conjunct1] r by blast
  have nr: "\<not> isRunning fresh" by (simp add: fresh_fields)
  have c2: "\<not> isRunning (fst (snd (run intText brokenEnv ''go'' fresh)))"
    using B[THEN conjunct2, THEN conjunct1] nr by blast
  have fl: "inflight midRun \<noteq> None" by (rule midRun_fields)
  have c3: "step intText midRun (Invoke echoEnv ''again'') = midRun"
    using A[THEN conjunct2, THEN conjunct2, THEN conjunct2, THEN conjunct2] fl
    unfolding midRun_def[symmetric] by blast
  from r c1 nr c2 fl c3 show ?thesis by (intro conjI)
qed

theorem reset_restores_initial_witness:
  "reset 9 (runAll intText (newAgentExecutor exampleAgent 0)
              [(echoEnv, ''say hi''), (brokenEnv, ''go'')]) = newAgentExecutor exampleAgent 9 \<and>
   messages (reset 9 (runAll intText (newAgentExecutor exampleAgent 0)
              [(echoEnv, ''say hi''), (brokenEnv, ''go'')])) = [systemMsg 9]"
proof -
  note T = reset_restores_initial[of 9 intText exampleAgent 0
      "[(echoEnv, ''say hi''), (brokenEnv, ''go'')]"]
  have p: "prompt exampleAgent = ''You are a helpful assistant.''"
    by (simp add: exampleAgent_def)
  have c2: "messages (reset 9 (runAll intText (newAgentExecutor exampleAgent 0)
              [(echoEnv, ''say hi''), (brokenEnv, ''go'')])) = [systemMsg 9]"
    using T[THEN conjunct2, THEN conjunct1] by (simp only: systemMsg_def p)
  from T[THEN conjunct1] c2 show ?thesis by (intro conjI)
qed

text \<open>
  C7 as stated does not hold: on the executor of \<open>midRun\<close>, whose flag is set,
  \<open>reset\<close> is performed. The transcript loses the user message of the run in
  progress, and the run then completes on the new transcript, which ends up with the
  system message and the assistant message only.
\<close>

theorem reset_mid_run_counterexample:
  "isRunning (exec midRun) \<and> inflight midRun \<noteq> None \<and>
   messages (exec midRun) = [systemMsg 0, userMsg ''hi'' 1] \<and>
   messages (reset 5 (exec midRun)) = [systemMsg 5] \<and>
   messages (reset 5 (exec midRun)) \<noteq> messages (exec midRun) \<and>
   messages (exec (afterEvents intText midRun [Reset 5, Resume])) =
     [systemMsg 5, assistantMsg ''Hello!'' 3] \<and>
   \<not> isRunning (exec (afterEvents intText midRun [Reset 5, Resume]))"
proof -
  have a: "messages (reset 5 (exec midRun)) = [systemMsg 5]"
    by (simp add: reset_fields midRun_eq fresh_fields systemMsg_def exampleAgent_def)
  have b: "afterEvents intText midRun [Reset 5, Resume] =
      \<lparr>exec = fresh\<lparr>messages := [systemMsg 5, assistantMsg ''Hello!'' 3], isRunning := False\<rparr>,
       inflight = None\<rparr>"
    by (simp add: afterEvents_def midRun_eq reset_def initializeMessages_def fresh_fields
        systemMsg_def exampleAgent_def textResponse_def reply_def pushAll_def Let_def
        directEnv_def scripted_times)
  show ?thesis
    by (simp add: midRun_fields a b)
qed

text \<open>
  C2 as stated does not hold. On a new executor \<open>run\<close> is called with the input
  \<^verbatim>\<open>hi\<close> and is suspended on the decide call; \<^verbatim>\<open>reset\<close> is called; the invocation
  is resumed and returns normally. The transcript that it returns holds the system
  message and the assistant message: the user message is not in it, so it is not the
  transcript before the call with the user message and the assistant message appended.
\<close>

theorem run_reset_between_counterexample:
  "messages fresh = [systemMsg 0] \<and>
   run_begin directEnv ''hi'' fresh =
     Inr (exec midRun, AwaitDecide (Inr (textResponse ''Hello!''))) \<and>
   run_resume intText directEnv (AwaitDecide (Inr (textResponse ''Hello!'')))
       (reset 0 (exec midRun)) =
     (fresh\<lparr>messages := [systemMsg 0, assistantMsg ''Hello!'' 3], isRunning := False\<rparr>,
      Settled (Inr [systemMsg 0, assistantMsg ''Hello!'' 3]), []) \<and>
   exec (afterEvents intText (newSession exampleAgent 0)
           [Invoke directEnv ''hi'', Reset 0, Resume]) =
     fresh\<lparr>messages := [systemMsg 0, assistantMsg ''Hello!'' 3], isRunning := False\<rparr> \<and>
   [systemMsg 0, assistantMsg ''Hello!'' 3] \<noteq>
     messages fresh @ [userMsg ''hi'' 1, assistantMsg ''Hello!'' 3] \<and>
   userMsg ''hi'' 1 \<notin> set [systemMsg 0, assistantMsg ''Hello!'' 3]"
proof -
  have nr: "\<not> isRunning fresh" by (simp add: fresh_fields)
  have a: "messages fresh = [systemMsg 0]" by (simp add: fresh_fields)
  have b: "run_begin directEnv ''hi'' fresh =
     Inr (exec midRun, AwaitDecide (Inr (textResponse ''Hello!'')))"
    by (simp add: run_begin_idle[OF nr] direct_decide midRun_eq fresh_fields)
       (simp add: directEnv_def scripted_times)
  have c: "run_resume intText directEnv (AwaitDecide (Inr (textResponse ''Hello!'')))
       (reset 0 (exec midRun)) =
     (fresh\<lparr>messages := [systemMsg 0, assistantMsg ''Hello!'' 3], isRunning := False\<rparr>,
      Settled (Inr [systemMsg 0, assistantMsg ''Hello!'' 3]), [])"
    by (simp add: midRun_eq reset_def initializeMessages_def fresh_fields systemMsg_def
        exampleAgent_def textResponse_def reply_def pushAll_def Let_def directEnv_def
        scripted_times)
  have d: "exec (afterEvents intText (newSession exampleAgent 0)
           [Invoke directEnv ''hi'', Reset 0, Resume]) =
     fresh\<lparr>messages := [systemMsg 0, assistantMsg ''Hello!'' 3], isRunning := False\<rparr>"
    using c b
    by (simp add: afterEvents_def newSession_example midRun_eq)
  have e: "[systemMsg 0, assistantMsg ''Hello!'' 3] \<noteq>
     messages fresh @ [userMsg ''hi'' 1, assistantMsg ''Hello!'' 3]"
    by (simp add: a)
  have f: "userMsg ''hi'' 1 \<notin> set [systemMsg 0, assistantMsg ''Hello!'' 3]"
    by (simp add: userMsg_def systemMsg_def assistantMsg_def)
  from a b c d e f show ?thesis by (intro conjI)
qed

theorem reset_unconditional_witness:
  "reset 5 (exec midRun) =
     (exec midRun)\<lparr>messages := [\<lparr>role = System, content = prompt (agent (exec midRun)),
        timestamp = 5, toolName = None, toolResult = None\<rparr>]\<rparr> \<and>
   isRunning (reset 5 (exec midRun)) \<and>
   inflight (step intText midRun (Reset 5)) = inflight midRun"
  using reset_unconditional[of 5 "exec midRun" intText midRun] midRun_fields(1)
  by simp

section \<open>What getMessages and getTools hand out\<close>

lemma holds_getMessages:
  assumes "holds h obj this"
  shows "readMessages (snd (h_getMessages obj h)) (fst (h_getMessages obj h)) =
           map Some (getMessages this)"
    and "arrays (snd (h_getMessages obj h)) (fst (h_getMessages obj h)) =
           arrays h (messagesRef obj)"
    and "holds (snd (h_getMessages obj h)) obj this"
    and "holds (arrayWrite (fst (h_getMessages obj h)) rs (snd (h_getMessages obj h))) obj this"
  using assms
  by (auto simp: holds_def h_getMessages_def readMessages_def readTools_def transcript_def
      toolList_def getMessages_def arrayWrite_def)

lemma holds_getTools:
  assumes "holds h obj this"
  shows "h_getTools obj h = (toolsRef obj, h)"
    and "readTools h (fst (h_getTools obj h)) = map Some (getTools this)"
    and "toolList obj (arrayWrite (fst (h_getTools obj h)) rs h) = map (toolObjs h) rs"
  using assms
  by (auto simp: holds_def h_getTools_def readTools_def toolList_def getTools_def arrayWrite_def)

text \<open>
  C8, as the code has it. In a store that holds the executor, \<^verbatim>\<open>getMessages\<close> returns a
  new array that reads as the transcript and has the same \<^verbatim>\<open>Message\<close> objects as
  elements; the store still holds the executor afterwards, also after any change of
  the returned array in place, so such changes are not seen by later operations.
  \<^verbatim>\<open>getTools\<close> allocates nothing and returns the tool array of the agent itself: it
  reads as the tool list, and a change of it in place is a change of the tool list
  that later operations see.
\<close>

theorem getMessages_copies_array_getTools_shares:
  "holds h obj this \<longrightarrow>
     readMessages (snd (h_getMessages obj h)) (fst (h_getMessages obj h)) =
       map Some (getMessages this) \<and>
     arrays (snd (h_getMessages obj h)) (fst (h_getMessages obj h)) =
       arrays h (messagesRef obj) \<and>
     holds (snd (h_getMessages obj h)) obj this \<and>
     (\<forall>rs. holds (arrayWrite (fst (h_getMessages obj h)) rs (snd (h_getMessages obj h))) obj this) \<and>
     h_getTools obj h = (toolsRef obj, h) \<and>
     readTools h (fst (h_getTools obj h)) = map Some (getTools this) \<and>
     (\<forall>rs. toolList obj (arrayWrite (fst (h_getTools obj h)) rs h) = map (toolObjs h) rs)"
  using holds_getMessages[of h obj this] holds_getTools[of h obj this] by blast

lemma holds0: "holds heap0 obj0 fresh"
  by (simp add: holds_def heap0_def obj0_def transcript_def toolList_def readMessages_def
      readTools_def fresh_fields example_tools)

text \<open>
  C8 as stated does not hold. In \<open>heap1\<close> the caller has assigned to the content of
  the element of the array that \<^verbatim>\<open>getMessages\<close> returned: the transcript of the
  executor has changed, and a later \<^verbatim>\<open>getMessages\<close> returns the changed message. In
  \<open>heap2\<close> the caller has emptied the array that \<^verbatim>\<open>getTools\<close> returned: the tool
  list of the executor is empty, and a later \<^verbatim>\<open>getTools\<close> returns no tool.
\<close>

theorem getMessages_getTools_counterexample:
  "holds heap0 obj0 fresh \<and>
   arrays (snd (h_getMessages obj0 heap0)) (fst (h_getMessages obj0 heap0)) = Some [2] \<and>
   readMessages (snd (h_getMessages obj0 heap0)) (fst (h_getMessages obj0 heap0)) =
     [Some (systemMsg 0)] \<and>
   readMessages (snd (h_getMessages obj0 heap1)) (fst (h_getMessages obj0 heap1)) =
     [Some ((systemMsg 0)\<lparr>content := ''changed''\<rparr>)] \<and>
   transcript obj0 heap1 \<noteq> transcript obj0 heap0 \<and>
   readTools heap0 (fst (h_getTools obj0 heap0)) = [Some echoTool, Some brokenTool, Some oddTool] \<and>
   readTools heap2 (fst (h_getTools obj0 heap2)) = [] \<and>
   toolList obj0 heap2 \<noteq> toolList obj0 heap0"
proof -
  have a: "arrays (snd (h_getMessages obj0 heap0)) (fst (h_getMessages obj0 heap0)) = Some [2]"
    by (simp add: h_getMessages_def heap0_def obj0_def)
  have b: "readMessages (snd (h_getMessages obj0 heap0)) (fst (h_getMessages obj0 heap0)) =
     [Some (systemMsg 0)]"
    by (simp add: readMessages_def h_getMessages_def heap0_def obj0_def)
  have c: "readMessages (snd (h_getMessages obj0 heap1)) (fst (h_getMessages obj0 heap1)) =
     [Some ((systemMsg 0)\<lparr>content := ''changed''\<rparr>)]"
    by (simp add: heap1_def readMessages_def setContent_def h_getMessages_def heap0_def obj0_def)
  have t0: "transcript obj0 heap0 = [Some (systemMsg 0)]"
    by (simp add: transcript_def readMessages_def heap0_def obj0_def)
  have t1: "transcript obj0 heap1 = [Some ((systemMsg 0)\<lparr>content := ''changed''\<rparr>)]"
    by (simp add: heap1_def transcript_def readMessages_def setContent_def h_getMessages_def
        heap0_def obj0_def)
  have ne: "transcript obj0 heap1 \<noteq> transcript obj0 heap0"
    by (simp add: t0 t1 systemMsg_def)
  have d: "readTools heap0 (fst (h_getTools obj0 heap0)) =
      [Some echoTool, Some brokenTool, Some oddTool]"
    by (simp add: readTools_def h_getTools_def heap0_def obj0_def)
  have e: "readTools heap2 (fst (h_getTools obj0 heap2)) = []"
    by (simp add: heap2_def readTools_def arrayWrite_def h_getTools_def heap0_def obj0_def)
  have l0: "toolList obj0 heap0 = [Some echoTool, Some brokenTool, Some oddTool]"
    by (simp add: toolList_def readTools_def heap0_def obj0_def)
  have l2: "toolList obj0 heap2 = []"
    by (simp add: heap2_def toolList_def readTools_def arrayWrite_def h_getTools_def heap0_def
        obj0_def)
  have ne2: "toolList obj0 heap2 \<noteq> toolList obj0 heap0"
    by (simp add: l0 l2)
  from holds0 a b c ne d e ne2 show ?thesis by (intro conjI)
qed

theorem getMessages_copies_array_getTools_shares_witness:
  "holds heap0 obj0 fresh \<and>
   readMessages (snd (h_getMessages obj0 heap0)) (fst (h_getMessages obj0 heap0)) =
     map Some (getMessages fresh) \<and>
   holds (arrayWrite (fst (h_getMessages obj0 heap0)) [] (snd (h_getMessages obj0 heap0)))
     obj0 fresh \<and>
   h_getTools obj0 heap0 = (toolsRef obj0, heap0) \<and>
   toolList obj0 (arrayWrite (fst (h_getTools obj0 heap0)) [3] heap0) =
     map (toolObjs heap0) [3]"
proof -
  note T = getMessages_copies_array_getTools_shares[rule_format, OF holds0]
  from T have c1: "readMessages (snd (h_getMessages obj0 heap0)) (fst (h_getMessages obj0 heap0)) =
     map Some (getMessages fresh)" by blast
  from T have c2: "holds (arrayWrite (fst (h_getMessages obj0 heap0)) []
      (snd (h_getMessages obj0 heap0))) obj0 fresh" by blast
  from T have c3: "h_getTools obj0 heap0 = (toolsRef obj0, heap0)" by blast
  from T have c4: "toolList obj0 (arrayWrite (fst (h_getTools obj0 heap0)) [3] heap0) =
     map (toolObjs heap0) [3]" by blast
  from holds0 c1 c2 c3 c4 show ?thesis by (intro conjI)
qed

end
